theory Spec2Isabelle
  imports Main "HOL-Library.Multiset"
begin

section \<open>Values: Python strings, JSON payloads and SQL storage classes\<close>

text \<open>
  A Python \<open>str\<close> is a list of code points, so that a lone surrogate, which \<open>json.loads\<close>
  accepts and the database driver cannot encode, is a value of the model. The names that the
  source writes as literals (column names, dictionary keys) and the request line and headers,
  which the HTTP server decodes as ISO-8859-1, are \<open>string\<close>s; \<open>ustr\<close> gives the \<open>str\<close> of
  such a text. JSON numbers with a fraction or an exponent (Python floats) and the REAL
  storage class are not modelled.
\<close>

type_synonym pystr = "nat list"

definition ustr :: "string \<Rightarrow> pystr" where
  "ustr s = map of_char s"

datatype json =
    JNull
  | JBool bool
  | JInt int
  | JStr pystr
  | JArr "json list"
  | JObj "(pystr \<times> json) list"

datatype sqlval = SNull | SInt int | SText pystr

text \<open>
  The exceptions that reach the caller: \<open>sqlite3.OperationalError\<close> (no such table, no such
  column, LIKE or GLOB pattern too complex), \<open>sqlite3.IntegrityError\<close> (UNIQUE constraint
  failed: reports.id), the driver's error for a parameter of an unsupported type,
  \<open>OverflowError\<close> for an integer outside the signed 64-bit range, \<open>UnicodeEncodeError\<close> for a
  text with a surrogate, \<open>ValueError\<close> of \<open>int()\<close>, \<open>AttributeError\<close> of \<open>.get\<close> on a value that
  is not a dict, \<open>IndexError\<close> of \<open>[0]\<close> on an empty list, and the error of decoding and
  parsing a request body.
\<close>

datatype error =
    OperationalError
  | IntegrityError
  | BindingError
  | OverflowError
  | UnicodeEncodeError
  | ValueError
  | AttributeError
  | IndexError
  | DecodeError

type_synonym payload = "pystr \<rightharpoonup> json"

definition py_get :: "payload \<Rightarrow> string \<Rightarrow> json" where
  \<comment> \<open>\<open>payload.get(key)\<close> for a key written as a literal: \<open>None\<close> for a missing key\<close>
  "py_get d k = (case d (ustr k) of None \<Rightarrow> JNull | Some v \<Rightarrow> v)"

section \<open>The \<open>reports\<close> table\<close>

datatype column =
    Col_id
  | Col_user
  | Col_inspectionDate
  | Col_manufactureName
  | Col_address
  | Col_country
  | Col_city
  | Col_pincode
  | Col_tacId
  | Col_plantInspectionReportNumber
  | Col_testReportNumber
  | Col_packModel
  | Col_remark
  | Col_createdAt

datatype affinity = TEXT | INTEGER

fun col_affinity :: "column \<Rightarrow> affinity" where
  \<comment> \<open>the declared types of \<open>SCHEMA\<close>\<close>
  "col_affinity Col_createdAt = INTEGER"
| "col_affinity _ = TEXT"

fun col_name :: "column \<Rightarrow> string" where
  "col_name Col_id = ''id''"
| "col_name Col_user = ''user''"
| "col_name Col_inspectionDate = ''inspectionDate''"
| "col_name Col_manufactureName = ''manufactureName''"
| "col_name Col_address = ''address''"
| "col_name Col_country = ''country''"
| "col_name Col_city = ''city''"
| "col_name Col_pincode = ''pincode''"
| "col_name Col_tacId = ''tacId''"
| "col_name Col_plantInspectionReportNumber = ''plantInspectionReportNumber''"
| "col_name Col_testReportNumber = ''testReportNumber''"
| "col_name Col_packModel = ''packModel''"
| "col_name Col_remark = ''remark''"
| "col_name Col_createdAt = ''createdAt''"

definition schema_columns :: "column list" where
  \<comment> \<open>the columns of \<open>SCHEMA\<close>, in the order declared\<close>
  "schema_columns =
     [Col_id, Col_user, Col_inspectionDate, Col_manufactureName, Col_address, Col_country,
      Col_city, Col_pincode, Col_tacId, Col_plantInspectionReportNumber, Col_testReportNumber,
      Col_packModel, Col_remark, Col_createdAt]"

text \<open>
  A row gives each column a value. A table has the columns it was declared with and its rows
  in rowid order, which is the order of insertion, since rows are never deleted. The database
  either has no \<open>reports\<close> table yet (\<open>None\<close>) or has one. A statement that names a column the
  table does not declare fails when it is prepared.
\<close>

type_synonym row = "column \<Rightarrow> sqlval"

record table =
  declared :: "column list"
  stored :: "row list"

type_synonym database = "table option"

definition init_db :: "database \<Rightarrow> (error + unit) \<times> database" where
  \<comment> \<open>\<open>CREATE TABLE IF NOT EXISTS reports (...)\<close>: a table that exists is left alone\<close>
  "init_db db =
     (case db of
        None \<Rightarrow> (Inr (), Some \<lparr>declared = schema_columns, stored = []\<rparr>)
      | Some t \<Rightarrow> (Inr (), db))"

section \<open>Binding parameters and storing a row\<close>

function show_nat :: "nat \<Rightarrow> pystr" where
  "show_nat n = (if n < 10 then [48 + n] else show_nat (n div 10) @ [48 + n mod 10])"
  by pat_completeness auto
termination
  by (relation "measure (\<lambda>n. n)") auto

declare show_nat.simps [simp del]

definition show_int :: "int \<Rightarrow> pystr" where
  \<comment> \<open>the decimal text SQLite gives an INTEGER\<close>
  "show_int i = (if i < 0 then 45 # show_nat (nat (- i)) else show_nat (nat i))"

definition is_surrogate :: "nat \<Rightarrow> bool" where
  "is_surrogate c = (0xD800 \<le> c \<and> c \<le> 0xDFFF)"

fun bind_param :: "json \<Rightarrow> error + sqlval" where
  \<comment> \<open>what the \<open>sqlite3\<close> driver binds for one Python value; \<open>bool\<close> is an \<open>int\<close>, and a \<open>str\<close>
      is encoded as UTF-8\<close>
  "bind_param JNull = Inr SNull"
| "bind_param (JBool b) = Inr (SInt (if b then 1 else 0))"
| "bind_param (JInt n) =
     (if - (2 ^ 63) \<le> n \<and> n < 2 ^ 63 then Inr (SInt n) else Inl OverflowError)"
| "bind_param (JStr s) = (if list_ex is_surrogate s then Inl UnicodeEncodeError else Inr (SText s))"
| "bind_param (JArr xs) = Inl BindingError"
| "bind_param (JObj kvs) = Inl BindingError"

fun bind_params :: "json list \<Rightarrow> error + sqlval list" where
  \<comment> \<open>the parameters are bound in order; the first failure is raised\<close>
  "bind_params [] = Inr []"
| "bind_params (v # vs) =
     (case bind_param v of
        Inl e \<Rightarrow> Inl e
      | Inr x \<Rightarrow> (case bind_params vs of Inl e \<Rightarrow> Inl e | Inr xs \<Rightarrow> Inr (x # xs)))"

text \<open>
  Column affinity: a TEXT column stores a number as its decimal text; an INTEGER column stores
  a text that reads as a number as that number and any other text unchanged. How SQLite reads
  a text as a number is taken as the parameter \<open>num\<close>.
\<close>

fun apply_affinity :: "(pystr \<Rightarrow> sqlval) \<Rightarrow> affinity \<Rightarrow> sqlval \<Rightarrow> sqlval" where
  "apply_affinity num TEXT (SInt n) = SText (show_int n)"
| "apply_affinity num INTEGER (SText s) = num s"
| "apply_affinity num a v = v"

definition sql_insert_row :: "(pystr \<Rightarrow> sqlval) \<Rightarrow> column list \<Rightarrow> sqlval list \<Rightarrow> row" where
  \<comment> \<open>\<open>INSERT INTO reports (cols) VALUES (?, ...)\<close>: a column that is not listed is NULL\<close>
  "sql_insert_row num cols vals =
     (\<lambda>c. case map_of (zip cols vals) c of
             None \<Rightarrow> SNull
           | Some v \<Rightarrow> apply_affinity num (col_affinity c) v)"

definition pk_conflict :: "row \<Rightarrow> row list \<Rightarrow> bool" where
  \<comment> \<open>\<open>id TEXT PRIMARY KEY\<close> of a rowid table: NULL ids never conflict\<close>
  "pk_conflict r rs = (r Col_id \<noteq> SNull \<and> r Col_id \<in> (\<lambda>x. x Col_id) ` set rs)"

definition insert_report ::
  "(pystr \<Rightarrow> sqlval) \<Rightarrow> payload \<Rightarrow> database \<Rightarrow> (error + unit) \<times> database" where
  "insert_report num payload db =
     (case db of
        None \<Rightarrow> (Inl OperationalError, db)
      | Some t \<Rightarrow>
          if \<not> list_all (\<lambda>c. c \<in> set (declared t)) schema_columns
          then (Inl OperationalError, db)
          else
            (case bind_params
                    [py_get payload ''id'', py_get payload ''user'',
                     py_get payload ''inspectionDate'', py_get payload ''manufactureName'',
                     py_get payload ''address'', py_get payload ''country'',
                     py_get payload ''city'', py_get payload ''pincode'',
                     py_get payload ''tacId'', py_get payload ''plantInspectionReportNumber'',
                     py_get payload ''testReportNumber'', py_get payload ''packModel'',
                     py_get payload ''remark'', py_get payload ''createdAt''] of
               Inl e \<Rightarrow> (Inl e, db)
             | Inr vals \<Rightarrow>
                 (let r = sql_insert_row num schema_columns vals
                  in if pk_conflict r (stored t) then (Inl IntegrityError, db)
                     else (Inr (), Some (t\<lparr>stored := stored t @ [r]\<rparr>)))))"

section \<open>Text functions of Python and of SQLite\<close>

definition is_space :: "nat \<Rightarrow> bool" where
  \<comment> \<open>\<open>str.isspace\<close> of one character\<close>
  "is_space c =
     (c \<in> set [0x09, 0x0A, 0x0B, 0x0C, 0x0D, 0x1C, 0x1D, 0x1E, 0x1F, 0x20, 0x85, 0xA0,
                0x1680, 0x2000, 0x2001, 0x2002, 0x2003, 0x2004, 0x2005, 0x2006, 0x2007,
                0x2008, 0x2009, 0x200A, 0x2028, 0x2029, 0x202F, 0x205F, 0x3000])"

definition strip :: "pystr \<Rightarrow> pystr" where
  \<comment> \<open>\<open>str.strip()\<close>\<close>
  "strip s = rev (dropWhile is_space (rev (dropWhile is_space s)))"

definition sql_trim_text :: "pystr \<Rightarrow> pystr" where
  \<comment> \<open>\<open>TRIM(X)\<close> removes spaces, and only spaces, from both ends\<close>
  "sql_trim_text s = rev (dropWhile (\<lambda>c. c = 0x20) (rev (dropWhile (\<lambda>c. c = 0x20) s)))"

definition lower_ascii :: "nat \<Rightarrow> nat" where
  \<comment> \<open>the case folding of \<open>LIKE\<close>: the letters A to Z only\<close>
  "lower_ascii c = (if 65 \<le> c \<and> c \<le> 90 then c + 32 else c)"

definition c_str :: "pystr \<Rightarrow> pystr" where
  \<comment> \<open>\<open>LIKE\<close> reads its pattern and its text as C strings: up to the first NUL\<close>
  "c_str s = takeWhile (\<lambda>c. c \<noteq> 0) s"

fun utf8_length :: "pystr \<Rightarrow> nat" where
  \<comment> \<open>the number of bytes of the UTF-8 encoding\<close>
  "utf8_length [] = 0"
| "utf8_length (c # cs) =
     (if c < 0x80 then 1 else if c < 0x800 then 2 else if c < 0x10000 then 3 else 4)
     + utf8_length cs"

fun like_match :: "pystr \<Rightarrow> pystr \<Rightarrow> bool" where
  \<comment> \<open>\<open>text LIKE pattern\<close> with no ESCAPE: \<open>%\<close> (37) is any run of characters, \<open>_\<close> (95) is
      any one character\<close>
  "like_match [] s = (s = [])"
| "like_match (p # ps) s =
     (if p = 37
      then like_match ps s \<or> (case s of [] \<Rightarrow> False | c # cs \<Rightarrow> like_match (p # ps) cs)
      else (case s of
              [] \<Rightarrow> False
            | c # cs \<Rightarrow> (p = 95 \<or> lower_ascii p = lower_ascii c) \<and> like_match ps cs))"

fun sql_text :: "sqlval \<Rightarrow> pystr option" where
  \<comment> \<open>the text a value is read as by a text function; NULL stays NULL\<close>
  "sql_text SNull = None"
| "sql_text (SInt n) = Some (show_int n)"
| "sql_text (SText s) = Some s"

text \<open>
  SQL conditions are three-valued: \<open>None\<close> is NULL. \<open>LIKE\<close> refuses a pattern of more than
  50000 bytes, whatever the text it is matched against.
\<close>

definition sql_like :: "sqlval \<Rightarrow> pystr \<Rightarrow> error + bool option" where
  "sql_like v pat =
     (if 50000 < utf8_length pat then Inl OperationalError
      else Inr (map_option (\<lambda>s. like_match (c_str pat) (c_str s)) (sql_text v)))"

fun sql_and :: "bool option \<Rightarrow> bool option \<Rightarrow> bool option" where
  "sql_and (Some False) _ = Some False"
| "sql_and _ (Some False) = Some False"
| "sql_and (Some True) (Some True) = Some True"
| "sql_and _ _ = None"

definition sql_is_not_null :: "sqlval \<Rightarrow> bool option" where
  "sql_is_not_null v = Some (v \<noteq> SNull)"

definition sql_trim :: "sqlval \<Rightarrow> sqlval" where
  "sql_trim v = (case sql_text v of None \<Rightarrow> SNull | Some s \<Rightarrow> SText (sql_trim_text s))"

definition sql_ne :: "sqlval \<Rightarrow> sqlval \<Rightarrow> bool option" where
  \<comment> \<open>\<open>a <> b\<close>\<close>
  "sql_ne a b = (if a = SNull \<or> b = SNull then None else Some (a \<noteq> b))"

section \<open>Ordering\<close>

fun text_le :: "pystr \<Rightarrow> pystr \<Rightarrow> bool" where
  \<comment> \<open>BINARY collation: the order of the UTF-8 bytes, which is that of the code points\<close>
  "text_le [] t = True"
| "text_le (a # as) [] = False"
| "text_le (a # as) (b # bs) = (a < b \<or> (a = b \<and> text_le as bs))"

fun sql_le :: "sqlval \<Rightarrow> sqlval \<Rightarrow> bool" where
  \<comment> \<open>the sort order of values: NULL, then numbers, then texts\<close>
  "sql_le SNull v = True"
| "sql_le (SInt a) SNull = False"
| "sql_le (SInt a) (SInt b) = (a \<le> b)"
| "sql_le (SInt a) (SText t) = True"
| "sql_le (SText s) (SText t) = text_le s t"
| "sql_le (SText s) v = False"

text \<open>
  \<open>ORDER BY col DESC\<close>. SQL leaves the order of rows with equal keys open; the model keeps
  them in rowid order.
\<close>

fun insert_desc :: "column \<Rightarrow> row \<Rightarrow> row list \<Rightarrow> row list" where
  "insert_desc col x [] = [x]"
| "insert_desc col x (y # ys) =
     (if sql_le (y col) (x col) then x # y # ys else y # insert_desc col x ys)"

fun order_by_desc :: "column \<Rightarrow> row list \<Rightarrow> row list" where
  "order_by_desc col [] = []"
| "order_by_desc col (x # xs) = insert_desc col x (order_by_desc col xs)"

section \<open>Queries\<close>

type_synonym filters = "string \<rightharpoonup> pystr"

definition add_like ::
  "filters \<Rightarrow> column \<Rightarrow> string \<Rightarrow> column list \<times> pystr list \<Rightarrow> column list \<times> pystr list" where
  \<comment> \<open>the closure \<open>add_like(col, key)\<close>; the pair is \<open>(where, params)\<close>\<close>
  "add_like fs col key wp =
     (let v = strip (case fs key of None \<Rightarrow> [] | Some s \<Rightarrow> s)
      in if v \<noteq> [] then (fst wp @ [col], snd wp @ [[37] @ v @ [37]]) else wp)"

fun sql_where :: "(column \<times> pystr) list \<Rightarrow> row \<Rightarrow> error + bool" where
  \<comment> \<open>\<open>c1 LIKE ? AND c2 LIKE ? AND ...\<close> on one row: the conditions are tested in order, and
      the first that is not true rejects the row\<close>
  "sql_where [] r = Inr True"
| "sql_where ((c, pat) # cs) r =
     (case sql_like (r c) pat of
        Inl e \<Rightarrow> Inl e
      | Inr (Some True) \<Rightarrow> sql_where cs r
      | Inr other \<Rightarrow> Inr False)"

fun sql_scan :: "(column \<times> pystr) list \<Rightarrow> row list \<Rightarrow> error + row list" where
  \<comment> \<open>the scan of the table: an error on a row ends the statement\<close>
  "sql_scan cs [] = Inr []"
| "sql_scan cs (r # rs) =
     (case sql_where cs r of
        Inl e \<Rightarrow> Inl e
      | Inr keep \<Rightarrow>
          (case sql_scan cs rs of
             Inl e \<Rightarrow> Inl e
           | Inr out \<Rightarrow> Inr (if keep then r # out else out)))"

definition select_reports :: "column list \<Rightarrow> pystr list \<Rightarrow> database \<Rightarrow> error + row list" where
  \<comment> \<open>\<open>SELECT * FROM reports [WHERE ...] ORDER BY createdAt DESC\<close> with its parameters: the
      statement is prepared, the parameters are bound, the rows are scanned and sorted\<close>
  "select_reports whr params db =
     (case db of
        None \<Rightarrow> Inl OperationalError
      | Some t \<Rightarrow>
          if \<not> list_all (\<lambda>c. c \<in> set (declared t)) (whr @ [Col_createdAt])
          then Inl OperationalError
          else
            (case bind_params (map JStr params) of
               Inl e \<Rightarrow> Inl e
             | Inr vals \<Rightarrow>
                 (case sql_scan (zip whr params) (stored t) of
                    Inl e \<Rightarrow> Inl e
                  | Inr out \<Rightarrow> Inr (order_by_desc Col_createdAt out))))"

definition query_reports :: "filters \<Rightarrow> database \<Rightarrow> error + row list" where
  "query_reports fs db =
     (let wp = add_like fs Col_packModel ''packModel''
                (add_like fs Col_testReportNumber ''testReportNumber''
                  (add_like fs Col_plantInspectionReportNumber ''plantInspectionReportNumber''
                    (add_like fs Col_tacId ''tacId'' ([], []))))
      in select_reports (fst wp) (snd wp) db)"

record stats_result =
  tacIssued :: int
  testReportIssued :: int

definition stats :: "database \<Rightarrow> error + stats_result" where
  "stats db =
     (case db of
        None \<Rightarrow> Inl OperationalError
      | Some t \<Rightarrow>
          if Col_tacId \<notin> set (declared t) then Inl OperationalError
          else if Col_testReportNumber \<notin> set (declared t) then Inl OperationalError
          else
            (let tac_count =
                   length (remdups (filter (\<lambda>v. v \<noteq> SNull)
                     (map (\<lambda>r. r Col_tacId)
                       (filter (\<lambda>r. sql_and (sql_is_not_null (r Col_tacId))
                                       (sql_ne (sql_trim (r Col_tacId)) (SText [])) = Some True)
                          (stored t)))));
                 test_count =
                   length (filter (\<lambda>r. sql_and (sql_is_not_null (r Col_testReportNumber))
                                     (sql_ne (sql_trim (r Col_testReportNumber)) (SText []))
                                     = Some True)
                             (stored t))
             in Inr \<lparr>tacIssued = int tac_count, testReportIssued = int test_count\<rparr>))"

section \<open>The HTTP handlers\<close>

text \<open>
  A request carries what the handlers read: the path and the query of \<open>urlparse(self.path)\<close>,
  the \<open>Content-Length\<close> header if there is one, and the bytes waiting on the input stream.
  A response is its status, its headers and its body; a JSON body is kept as the value that
  \<open>json.dumps\<close> writes out.
\<close>

record request =
  path :: string
  query :: string
  content_length :: "string option"
  rfile :: string

datatype body = NoBody | JsonBody json | RawBody string

record response =
  status :: nat
  headers :: "(string \<times> string) list"
  content :: body

definition cors :: "(string \<times> string) list" where
  "cors =
     [(''Access-Control-Allow-Origin'', ''*''),
      (''Access-Control-Allow-Methods'', ''GET, POST, OPTIONS''),
      (''Access-Control-Allow-Headers'', ''Content-Type'')]"

definition json_response :: "nat \<Rightarrow> json \<Rightarrow> response" where
  "json_response code v =
     \<lparr>status = code, headers = cors @ [(''Content-Type'', ''application/json'')],
      content = JsonBody v\<rparr>"

definition not_found :: response where
  "not_found = \<lparr>status = 404, headers = cors, content = NoBody\<rparr>"

fun to_json :: "sqlval \<Rightarrow> json" where
  \<comment> \<open>the Python value the driver returns for a stored value\<close>
  "to_json SNull = JNull"
| "to_json (SInt n) = JInt n"
| "to_json (SText s) = JStr s"

definition row_dict :: "column list \<Rightarrow> row \<Rightarrow> json" where
  \<comment> \<open>\<open>dict(r)\<close> for a row of \<open>SELECT *\<close>: the columns of the table, in their order\<close>
  "row_dict cols r = JObj (map (\<lambda>c. (ustr (col_name c), to_json (r c))) cols)"

definition table_columns :: "database \<Rightarrow> column list" where
  "table_columns db = (case db of None \<Rightarrow> [] | Some t \<Rightarrow> declared t)"

definition stats_dict :: "stats_result \<Rightarrow> json" where
  "stats_dict s =
     JObj [(ustr ''tacIssued'', JInt (tacIssued s)),
           (ustr ''testReportIssued'', JInt (testReportIssued s))]"

subsection \<open>\<open>urllib.parse.parse_qs\<close>\<close>

text \<open>
  \<open>parse_qs\<close> with its default arguments: the query is split at \<open>&\<close>, each piece is cut at
  its first \<open>=\<close>, a piece whose value is empty is dropped, and in the others \<open>+\<close> becomes a
  space and the percent escapes are decoded. The separator is \<open>&\<close> alone, as in the current
  versions of the library. The percent decoding \<open>unquote\<close> is a parameter.
\<close>

fun split_on :: "char \<Rightarrow> string \<Rightarrow> string list" where
  \<comment> \<open>\<open>s.split(sep)\<close>\<close>
  "split_on sep [] = [[]]"
| "split_on sep (c # cs) =
     (if c = sep then [] # split_on sep cs
      else (case split_on sep cs of [] \<Rightarrow> [[c]] | x # xs \<Rightarrow> (c # x) # xs))"

definition partition_eq :: "string \<Rightarrow> string \<times> string" where
  \<comment> \<open>\<open>name, has_eq, value = name_value.partition('=')\<close>\<close>
  "partition_eq nv =
     (takeWhile (\<lambda>c. c \<noteq> CHR ''='') nv, drop 1 (dropWhile (\<lambda>c. c \<noteq> CHR ''='') nv))"

definition plus_to_space :: "string \<Rightarrow> string" where
  "plus_to_space s = map (\<lambda>c. if c = CHR ''+'' then CHR '' '' else c) s"

fun parse_qsl_loop :: "(string \<Rightarrow> pystr) \<Rightarrow> string list \<Rightarrow> (pystr \<times> pystr) list" where
  "parse_qsl_loop unquote [] = []"
| "parse_qsl_loop unquote (name_value # rest) =
     (if name_value \<noteq> [] \<and> snd (partition_eq name_value) \<noteq> []
      then (unquote (plus_to_space (fst (partition_eq name_value))),
            unquote (plus_to_space (snd (partition_eq name_value))))
           # parse_qsl_loop unquote rest
      else parse_qsl_loop unquote rest)"

definition parse_qsl :: "(string \<Rightarrow> pystr) \<Rightarrow> string \<Rightarrow> (pystr \<times> pystr) list" where
  "parse_qsl unquote qs = parse_qsl_loop unquote (split_on CHR ''&'' qs)"

fun parse_qs_loop ::
  "(pystr \<times> pystr) list \<Rightarrow> (pystr \<rightharpoonup> pystr list) \<Rightarrow> (pystr \<rightharpoonup> pystr list)" where
  "parse_qs_loop [] d = d"
| "parse_qs_loop ((name, v) # ps) d =
     parse_qs_loop ps (d(name \<mapsto> (case d name of None \<Rightarrow> [v] | Some vs \<Rightarrow> vs @ [v])))"

definition parse_qs :: "(string \<Rightarrow> pystr) \<Rightarrow> string \<Rightarrow> (pystr \<rightharpoonup> pystr list)" where
  "parse_qs unquote qs = parse_qs_loop (parse_qsl unquote qs) Map.empty"

definition unquote_plain :: "string \<Rightarrow> pystr" where
  \<comment> \<open>\<open>unquote\<close> on a text that has no \<open>%\<close> returns the text itself; this instance serves
      where a concrete query string has no escapes\<close>
  "unquote_plain s = ustr s"

subsection \<open>\<open>do_GET\<close>\<close>

definition qs_first :: "(pystr \<rightharpoonup> pystr list) \<Rightarrow> string \<Rightarrow> error + pystr" where
  \<comment> \<open>\<open>qs.get(k, [""])[0] or ""\<close>\<close>
  "qs_first qs k =
     (case qs (ustr k) of
        None \<Rightarrow> Inr []
      | Some [] \<Rightarrow> Inl IndexError
      | Some (v # vs) \<Rightarrow> Inr v)"

fun build_filters :: "(pystr \<rightharpoonup> pystr list) \<Rightarrow> string list \<Rightarrow> error + filters" where
  \<comment> \<open>the dict comprehension over the four keys\<close>
  "build_filters qs [] = Inr Map.empty"
| "build_filters qs (k # ks) =
     (case qs_first qs k of
        Inl e \<Rightarrow> Inl e
      | Inr v \<Rightarrow> (case build_filters qs ks of Inl e \<Rightarrow> Inl e | Inr f \<Rightarrow> Inr (f(k \<mapsto> v))))"

definition do_GET ::
  "(string \<Rightarrow> pystr) \<Rightarrow> string option \<Rightarrow> request \<Rightarrow> database \<Rightarrow> error + response" where
  \<comment> \<open>\<open>index_html\<close> is the content of the file \<open>index.html\<close>, if it exists\<close>
  "do_GET unquote index_html req db =
     (if path req = ''/api/health''
      then Inr (json_response 200 (JObj [(ustr ''ok'', JBool True)]))
      else if path req = ''/api/reports'' then
        (case build_filters (parse_qs unquote (query req))
                [''tacId'', ''plantInspectionReportNumber'', ''testReportNumber'', ''packModel''] of
           Inl e \<Rightarrow> Inl e
         | Inr fs \<Rightarrow>
             (case query_reports fs db of
                Inl e \<Rightarrow> Inl e
              | Inr items \<Rightarrow>
                  Inr (json_response 200 (JArr (map (row_dict (table_columns db)) items)))))
      else if path req = ''/api/stats'' then
        (case stats db of
           Inl e \<Rightarrow> Inl e
         | Inr s \<Rightarrow> Inr (json_response 200 (stats_dict s)))
      else if path req = ''/'' \<or> path req = ''/index.html'' then
        (case index_html of
           None \<Rightarrow> Inr not_found
         | Some file \<Rightarrow>
             Inr \<lparr>status = 200,
                  headers = cors @ [(''Content-Type'', ''text/html; charset=utf-8'')],
                  content = RawBody file\<rparr>)
      else Inr not_found)"

subsection \<open>\<open>do_POST\<close>\<close>

text \<open>
  \<open>int(s)\<close> for the text of a header. A character outside ASCII that is a space (U+0085,
  U+00A0) is read as a space; the spaces of C (\<open>\t \n \v \f \r\<close> and the space) are dropped
  at both ends; then come an optional sign and decimal digits, with single underscores
  allowed between digits. More than 4300 digits are refused.
\<close>

definition int_space :: "char \<Rightarrow> char" where
  "int_space c = (if c = CHR 0x85 \<or> c = CHR 0xA0 then CHR '' '' else c)"

definition c_isspace :: "char \<Rightarrow> bool" where
  "c_isspace c = (c \<in> set [CHR 0x09, CHR 0x0A, CHR 0x0B, CHR 0x0C, CHR 0x0D, CHR '' ''])"

definition digit_value :: "char \<Rightarrow> nat option" where
  "digit_value c = map_of (zip ''0123456789'' [0, 1, 2, 3, 4, 5, 6, 7, 8, 9]) c"

fun int_digits :: "string \<Rightarrow> nat \<Rightarrow> nat option" where
  "int_digits [] acc = Some acc"
| "int_digits (c # cs) acc =
     (if c = CHR ''_''
      then (case cs of
              [] \<Rightarrow> None
            | d # ds \<Rightarrow> if d = CHR ''_'' then None else int_digits cs acc)
      else (case digit_value c of
              None \<Rightarrow> None
            | Some d \<Rightarrow> int_digits cs (10 * acc + d)))"

definition py_int :: "string \<Rightarrow> error + int" where
  "py_int s =
     (let t = rev (dropWhile c_isspace (rev (dropWhile c_isspace (map int_space s))));
          neg = (case t of [] \<Rightarrow> False | c # cs \<Rightarrow> c = CHR ''-'');
          u = (case t of [] \<Rightarrow> [] | c # cs \<Rightarrow> if c = CHR ''-'' \<or> c = CHR ''+'' then cs else t)
      in case u of
           [] \<Rightarrow> Inl ValueError
         | c # cs \<Rightarrow>
             if c = CHR ''_'' then Inl ValueError
             else if 4300 < length (filter (\<lambda>d. digit_value d \<noteq> None) u) then Inl ValueError
             else (case int_digits u 0 of
                     None \<Rightarrow> Inl ValueError
                   | Some n \<Rightarrow> Inr (if neg then - int n else int n)))"

definition dict_of :: "(pystr \<times> json) list \<Rightarrow> payload" where
  \<comment> \<open>the dict of a JSON object: the last of several equal keys wins\<close>
  "dict_of kvs = map_of (rev kvs)"

definition do_POST ::
  "(string \<Rightarrow> error + json) \<Rightarrow> (pystr \<Rightarrow> sqlval) \<Rightarrow> request \<Rightarrow> database
     \<Rightarrow> (error + response) \<times> database" where
  \<comment> \<open>\<open>loads\<close> is \<open>json.loads(body.decode("utf-8"))\<close>, taken as a parameter; \<open>rfile.read\<close>
      returns the bytes the client has sent, up to the length asked for\<close>
  "do_POST loads num req db =
     (if path req = ''/api/reports'' then
        (case py_int (case content_length req of None \<Rightarrow> ''0'' | Some v \<Rightarrow> v) of
           Inl e \<Rightarrow> (Inl e, db)
         | Inr len \<Rightarrow>
             (case loads (if len > 0 then take (nat len) (rfile req) else ''{}'') of
                Inl e \<Rightarrow> (Inl e, db)
              | Inr (JObj kvs) \<Rightarrow>
                  (case insert_report num (dict_of kvs) db of
                     (Inl e, db') \<Rightarrow> (Inl e, db')
                   | (Inr u, db') \<Rightarrow>
                       (Inr (json_response 201 (JObj [(ustr ''ok'', JBool True)])), db'))
              | Inr other \<Rightarrow> (Inl AttributeError, db)))
      else (Inr not_found, db))"

section \<open>Notions of the specification\<close>

text \<open>
  The specification speaks of a value that occurs in a column as a substring, of values that
  are blank after trimming, of an insert that carries the id of a stored row, of the first
  occurrence of a key in a query string, and of a report whose fields are texts, but for the
  integer \<open>createdAt\<close>. These definitions follow its words; the theorems compare them with the
  code.
\<close>

fun is_substring :: "pystr \<Rightarrow> pystr \<Rightarrow> bool" where
  \<comment> \<open>\<open>v\<close> occurs in \<open>s\<close>\<close>
  "is_substring v [] = (v = [])"
| "is_substring v (c # cs) = (take (length v) (c # cs) = v \<or> is_substring v cs)"

fun ci_prefix :: "pystr \<Rightarrow> pystr \<Rightarrow> bool" where
  "ci_prefix [] s = True"
| "ci_prefix (a # as) [] = False"
| "ci_prefix (a # as) (b # bs) = (lower_ascii a = lower_ascii b \<and> ci_prefix as bs)"

fun ci_substring :: "pystr \<Rightarrow> pystr \<Rightarrow> bool" where
  \<comment> \<open>\<open>v\<close> occurs in \<open>s\<close> when the case of the letters A to Z is ignored\<close>
  "ci_substring v [] = (v = [])"
| "ci_substring v (c # cs) = (ci_prefix v (c # cs) \<or> ci_substring v cs)"

definition plain_value :: "pystr \<Rightarrow> bool" where
  \<comment> \<open>a value with no \<open>%\<close>, no \<open>_\<close> and no NUL character\<close>
  "plain_value v = (37 \<notin> set v \<and> 95 \<notin> set v \<and> 0 \<notin> set v)"

definition short_value :: "pystr \<Rightarrow> bool" where
  \<comment> \<open>a value that can be encoded and takes at most 49998 bytes\<close>
  "short_value v = (\<not> list_ex is_surrogate v \<and> utf8_length v \<le> 49998)"

definition filter_keys :: "(column \<times> string) list" where
  "filter_keys =
     [(Col_tacId, ''tacId''),
      (Col_plantInspectionReportNumber, ''plantInspectionReportNumber''),
      (Col_testReportNumber, ''testReportNumber''),
      (Col_packModel, ''packModel'')]"

definition filter_value :: "filters \<Rightarrow> string \<Rightarrow> pystr" where
  \<comment> \<open>the trimmed value of a filter key; empty for an absent key\<close>
  "filter_value fs k = strip (case fs k of None \<Rightarrow> [] | Some s \<Rightarrow> s)"

definition row_matches :: "(pystr \<Rightarrow> pystr \<Rightarrow> bool) \<Rightarrow> filters \<Rightarrow> row \<Rightarrow> bool" where
  \<comment> \<open>every non-blank filter value occurs in its column, for the given notion of occurring;
      of a column only the text before its first NUL character is looked at\<close>
  "row_matches occurs fs r =
     list_all (\<lambda>(c, k). filter_value fs k \<noteq> [] \<longrightarrow>
                 (case sql_text (r c) of
                    None \<Rightarrow> False
                  | Some s \<Rightarrow> occurs (filter_value fs k) (c_str s)))
       filter_keys"

definition non_blank :: "(nat \<Rightarrow> bool) \<Rightarrow> sqlval \<Rightarrow> bool" where
  \<comment> \<open>not NULL and with a character that trimming leaves, \<open>blank\<close> saying which characters
      are trimmed\<close>
  "non_blank blank v = (case sql_text v of None \<Rightarrow> False | Some s \<Rightarrow> list_ex (\<lambda>c. \<not> blank c) s)"

definition is_blank_space :: "nat \<Rightarrow> bool" where
  \<comment> \<open>the space character, U+0020\<close>
  "is_blank_space c = (c = 0x20)"

fun id_text :: "json \<Rightarrow> pystr option" where
  \<comment> \<open>the text of the id that a payload carries: a text itself, a number in decimal, a
      boolean as 1 or 0\<close>
  "id_text (JStr s) = Some s"
| "id_text (JInt n) = Some (show_int n)"
| "id_text (JBool b) = Some (if b then [49] else [48])"
| "id_text other = None"

fun bindable_value :: "json \<Rightarrow> bool" where
  \<comment> \<open>null, a boolean, an integer of the signed 64-bit range, or a text without surrogates\<close>
  "bindable_value JNull = True"
| "bindable_value (JBool b) = True"
| "bindable_value (JInt n) = (- (2 ^ 63) \<le> n \<and> n < 2 ^ 63)"
| "bindable_value (JStr s) = (\<not> list_ex is_surrogate s)"
| "bindable_value other = False"

definition bindable :: "payload \<Rightarrow> bool" where
  \<comment> \<open>each of the 14 values of the payload is such a value\<close>
  "bindable p = list_all (\<lambda>c. bindable_value (py_get p (col_name c))) schema_columns"

definition typed_payload :: "payload \<Rightarrow> bool" where
  \<comment> \<open>the payload of the data model: a text or null in each text field, an integer or null
      in \<open>createdAt\<close>\<close>
  "typed_payload p =
     list_all (\<lambda>c. case py_get p (col_name c) of
                     JNull \<Rightarrow> True
                   | JStr s \<Rightarrow> col_affinity c = TEXT
                   | JInt n \<Rightarrow> col_affinity c = INTEGER
                   | _ \<Rightarrow> False)
       schema_columns"

definition qs_segments :: "string \<Rightarrow> (string \<times> string) list" where
  \<comment> \<open>the \<open>name=value\<close> pieces of a query string, as written\<close>
  "qs_segments q = map partition_eq (split_on CHR ''&'' q)"

definition first_occurrence :: "(string \<Rightarrow> pystr) \<Rightarrow> string \<Rightarrow> string \<Rightarrow> pystr" where
  \<comment> \<open>the value of the first piece named \<open>k\<close>; empty when there is none\<close>
  "first_occurrence unquote q k =
     (case find (\<lambda>(n, v). unquote (plus_to_space n) = ustr k) (qs_segments q) of
        None \<Rightarrow> []
      | Some (n, v) \<Rightarrow> unquote (plus_to_space v))"

definition first_nonblank_occurrence :: "(string \<Rightarrow> pystr) \<Rightarrow> string \<Rightarrow> string \<Rightarrow> pystr" where
  \<comment> \<open>the value of the first piece named \<open>k\<close> among those whose value is not empty\<close>
  "first_nonblank_occurrence unquote q k =
     (case find (\<lambda>(n, v). v \<noteq> [] \<and> unquote (plus_to_space n) = ustr k) (qs_segments q) of
        None \<Rightarrow> []
      | Some (n, v) \<Rightarrow> unquote (plus_to_space v))"

section \<open>Auxiliary definitions\<close>

text \<open>
  Names for what the proofs speak of: the database whose table has the columns of \<open>SCHEMA\<close>,
  the parameters of the INSERT, the row it stores, the conditions of the WHERE clause, the
  outcome of a condition that raises no error, and the order of the result.
\<close>

definition reports_db :: "row list \<Rightarrow> database" where
  "reports_db rs = Some \<lparr>declared = schema_columns, stored = rs\<rparr>"

definition payload_params :: "payload \<Rightarrow> json list" where
  \<comment> \<open>the tuple of the 14 \<open>payload.get\<close> values\<close>
  "payload_params p = map (\<lambda>c. py_get p (col_name c)) schema_columns"

definition bound :: "json \<Rightarrow> sqlval" where
  \<comment> \<open>the value bound for a parameter that binds\<close>
  "bound v = (case bind_param v of Inl e \<Rightarrow> SNull | Inr x \<Rightarrow> x)"

definition stored_row :: "(pystr \<Rightarrow> sqlval) \<Rightarrow> payload \<Rightarrow> row" where
  \<comment> \<open>the row an insert of \<open>p\<close> stores: each value bound and given its column's affinity\<close>
  "stored_row num p = (\<lambda>c. apply_affinity num (col_affinity c) (bound (py_get p (col_name c))))"

definition like_conds :: "filters \<Rightarrow> (column \<times> pystr) list" where
  \<comment> \<open>the conditions of the WHERE clause that the four \<open>add_like\<close> calls build\<close>
  "like_conds fs =
     concat (map (\<lambda>(c, k). if filter_value fs k \<noteq> [] then [(c, [37] @ filter_value fs k @ [37])]
                            else []) filter_keys)"

definition cond_holds :: "row \<Rightarrow> column \<times> pystr \<Rightarrow> bool" where
  \<comment> \<open>the column is not NULL and matches the pattern\<close>
  "cond_holds r cp =
     (case sql_text (r (fst cp)) of
        None \<Rightarrow> False
      | Some s \<Rightarrow> like_match (c_str (snd cp)) (c_str s))"

abbreviation descending :: "column \<Rightarrow> row \<Rightarrow> row \<Rightarrow> bool" where
  "descending col a b \<equiv> sql_le (b col) (a col)"

section \<open>Example data\<close>

text \<open>
  The rows, payloads, filters and requests of the examples. A text that an example compares
  character by character is written as its code points.
\<close>

definition null_row :: row where
  "null_row = (\<lambda>c. SNull)"

definition payload_10 :: payload where
  "payload_10 = [ustr ''id'' \<mapsto> JStr (ustr ''a''), ustr ''createdAt'' \<mapsto> JInt 10]"

definition payload_30 :: payload where
  "payload_30 = [ustr ''id'' \<mapsto> JStr (ustr ''b''), ustr ''createdAt'' \<mapsto> JInt 30]"

definition payload_20 :: payload where
  "payload_20 = [ustr ''id'' \<mapsto> JStr (ustr ''c''), ustr ''createdAt'' \<mapsto> JInt 20]"

definition row_abc :: row where
  \<comment> \<open>id \<open>r1\<close>, tacId \<open>ABC123\<close>\<close>
  "row_abc = null_row(Col_id := SText [114, 49], Col_tacId := SText [65, 66, 67, 49, 50, 51])"

definition row_xyz :: row where
  \<comment> \<open>id \<open>r2\<close>, tacId \<open>XYZ999\<close>\<close>
  "row_xyz = null_row(Col_id := SText [114, 50], Col_tacId := SText [88, 89, 90, 57, 57, 57])"

definition row_nul :: row where
  \<comment> \<open>id \<open>r3\<close>, tacId \<open>AB\<close>, a NUL character, \<open>BC1\<close>\<close>
  "row_nul = null_row(Col_id := SText [114, 51], Col_tacId := SText [65, 66, 0, 66, 67, 49])"

definition filters_padded :: filters where
  \<comment> \<open>tacId is two spaces, \<open>bC1\<close> and a tab; packModel is three spaces\<close>
  "filters_padded = [''tacId'' \<mapsto> [32, 32, 98, 67, 49, 9], ''packModel'' \<mapsto> [32, 32, 32]]"

definition filters_bc1 :: filters where
  \<comment> \<open>tacId is \<open>bc1\<close>\<close>
  "filters_bc1 = [''tacId'' \<mapsto> [98, 99, 49]]"

definition filters_no_model :: filters where
  \<comment> \<open>tacId is \<open>BC1\<close>, packModel is \<open>No\<close>\<close>
  "filters_no_model = [''tacId'' \<mapsto> [66, 67, 49], ''packModel'' \<mapsto> [78, 111]]"

definition row_created :: "sqlval \<Rightarrow> row" where
  "row_created v = null_row(Col_createdAt := v)"

definition payload_match :: payload where
  \<comment> \<open>tacId is \<open>xbc1\<close>\<close>
  "payload_match =
     [ustr ''id'' \<mapsto> JStr [109], ustr ''tacId'' \<mapsto> JStr [120, 98, 99, 49],
      ustr ''createdAt'' \<mapsto> JInt 10]"

definition payload_r1 :: payload where
  "payload_r1 =
     [ustr ''id'' \<mapsto> JStr (ustr ''R1''), ustr ''tacId'' \<mapsto> JStr (ustr ''TAC-9''),
      ustr ''createdAt'' \<mapsto> JInt 100]"

definition payload_pincode :: payload where
  "payload_pincode = [ustr ''id'' \<mapsto> JStr (ustr ''R1''), ustr ''pincode'' \<mapsto> JInt 560001]"

definition row_five :: row where
  \<comment> \<open>id \<open>5\<close>\<close>
  "row_five = null_row(Col_id := SText [53])"

definition payload_dup :: payload where
  \<comment> \<open>id \<open>r1\<close>\<close>
  "payload_dup = [ustr ''id'' \<mapsto> JStr [114, 49]]"

definition payload_five :: payload where
  "payload_five = [ustr ''id'' \<mapsto> JInt 5]"

definition payload_r1_list :: payload where
  \<comment> \<open>id \<open>r1\<close>, user an empty list\<close>
  "payload_r1_list = [ustr ''id'' \<mapsto> JStr [114, 49], ustr ''user'' \<mapsto> JArr []]"

definition payload_list :: payload where
  "payload_list = [ustr ''user'' \<mapsto> JArr []]"

definition payload_user :: payload where
  \<comment> \<open>no id, user \<open>u\<close>\<close>
  "payload_user = [ustr ''user'' \<mapsto> JStr [117]]"

definition stats_rows :: "row list" where
  \<comment> \<open>tacId \<open>A\<close>, \<open>A\<close>, empty, NULL; testReportNumber \<open>T1\<close>, empty, NULL, NULL\<close>
  "stats_rows =
     [null_row(Col_tacId := SText [65], Col_testReportNumber := SText [84, 49]),
      null_row(Col_tacId := SText [65], Col_testReportNumber := SText []),
      null_row(Col_tacId := SText []),
      null_row]"

definition stats_rows_spaces :: "row list" where
  \<comment> \<open>tacId \<open>A\<close>, \<open>A\<close> between spaces, two spaces, \<open>A\<close>; testReportNumber \<open>T1\<close>, one space,
      \<open>T2\<close> after a space, NULL\<close>
  "stats_rows_spaces =
     [null_row(Col_tacId := SText [65], Col_testReportNumber := SText [84, 49]),
      null_row(Col_tacId := SText [32, 65, 32], Col_testReportNumber := SText [32]),
      null_row(Col_tacId := SText [32, 32], Col_testReportNumber := SText [32, 84, 50]),
      null_row(Col_tacId := SText [65])]"

definition row_tab :: row where
  \<comment> \<open>tacId and testReportNumber are one tab character\<close>
  "row_tab = null_row(Col_tacId := SText [9], Col_testReportNumber := SText [9])"

definition loads_empty_object :: "string \<Rightarrow> error + json" where
  \<comment> \<open>\<open>json.loads\<close> reads the text \<open>{}\<close> as the empty object; this instance serves where a
      concrete request has that body or none\<close>
  "loads_empty_object s = (if s = ''{}'' then Inr (JObj []) else Inl DecodeError)"

definition get_reports :: "string \<Rightarrow> request" where
  \<comment> \<open>the request \<open>GET /api/reports?q\<close>\<close>
  "get_reports q = \<lparr>path = ''/api/reports'', query = q, content_length = None, rfile = []\<rparr>"

definition post_empty :: request where
  \<comment> \<open>\<open>POST /api/reports\<close> with no \<open>Content-Length\<close> and no body\<close>
  "post_empty = \<lparr>path = ''/api/reports'', query = [], content_length = None, rfile = []\<rparr>"

definition post_zero :: request where
  \<comment> \<open>\<open>POST /api/reports\<close> with \<open>Content-Length: 0\<close>\<close>
  "post_zero = \<lparr>path = ''/api/reports'', query = [], content_length = Some ''0'', rfile = []\<rparr>"

section \<open>Ordering of the result\<close>

lemma text_le_total: "text_le s t \<or> text_le t s"
  by (induction s t rule: text_le.induct) auto

lemma text_le_trans: "text_le s t \<Longrightarrow> text_le t u \<Longrightarrow> text_le s u"
proof (induction s t arbitrary: u rule: text_le.induct)
  case (1 t)
  then show ?case by simp
next
  case (2 a as)
  then show ?case by simp
next
  case (3 a as b bs)
  then show ?case by (cases u) auto
qed

lemma sql_le_total: "sql_le a b \<or> sql_le b a"
  by (cases a; cases b) (auto simp: text_le_total)

lemma sql_le_trans: "sql_le a b \<Longrightarrow> sql_le b c \<Longrightarrow> sql_le a c"
proof (cases a; cases b; cases c)
  fix s t u
  assume "sql_le a b" "sql_le b c" "a = SText s" "b = SText t" "c = SText u"
  then show ?thesis using text_le_trans [of s t u] by simp
qed simp_all

lemma set_insert_desc: "set (insert_desc col x xs) = insert x (set xs)"
  by (induction xs) auto

lemma mset_insert_desc: "mset (insert_desc col x xs) = add_mset x (mset xs)"
  by (induction xs) auto

lemma mset_order_by_desc: "mset (order_by_desc col xs) = mset xs"
  by (induction xs) (auto simp: mset_insert_desc)

lemma sorted_insert_desc:
  "sorted_wrt (descending col) xs \<Longrightarrow> sorted_wrt (descending col) (insert_desc col x xs)"
proof (induction xs)
  case Nil
  then show ?case by simp
next
  case (Cons y ys)
  show ?case
  proof (cases "sql_le (y col) (x col)")
    case True
    have "\<forall>z \<in> set ys. sql_le (z col) (x col)"
      using Cons.prems True sql_le_trans by auto
    with True Cons.prems show ?thesis by auto
  next
    case False
    then have "sql_le (x col) (y col)" using sql_le_total by blast
    with False Cons show ?thesis by (auto simp: set_insert_desc)
  qed
qed

lemma sorted_order_by_desc: "sorted_wrt (descending col) (order_by_desc col xs)"
  by (induction xs) (auto simp: sorted_insert_desc)

section \<open>Inserting a row\<close>

lemma payload_params_list:
  "[py_get p ''id'', py_get p ''user'', py_get p ''inspectionDate'',
    py_get p ''manufactureName'', py_get p ''address'', py_get p ''country'',
    py_get p ''city'', py_get p ''pincode'', py_get p ''tacId'',
    py_get p ''plantInspectionReportNumber'', py_get p ''testReportNumber'',
    py_get p ''packModel'', py_get p ''remark'', py_get p ''createdAt''] = payload_params p"
  by (simp add: payload_params_def schema_columns_def)

lemma in_schema_columns: "c \<in> set schema_columns"
  by (cases c) (simp_all add: schema_columns_def)

lemma schema_declared: "list_all (\<lambda>c. c \<in> set schema_columns) cs"
  by (simp add: list_all_iff in_schema_columns)

lemma bind_params_Inr: "bind_params vs = Inr xs \<Longrightarrow> xs = map bound vs"
  by (induction vs arbitrary: xs) (auto simp: bound_def split: sum.splits)

lemma bind_params_ok:
  "(\<exists>xs. bind_params vs = Inr xs) \<longleftrightarrow> (\<forall>v \<in> set vs. \<exists>x. bind_param v = Inr x)"
  by (induction vs) (auto split: sum.splits)

lemma bindable_value_bind: "bindable_value v \<longleftrightarrow> (\<exists>x. bind_param v = Inr x)"
  by (cases v) auto

lemma bindable_bind_params:
  "bindable p \<longleftrightarrow> (\<exists>vals. bind_params (payload_params p) = Inr vals)"
  by (simp add: bindable_def payload_params_def bind_params_ok list_all_iff bindable_value_bind)

lemma not_bindable_bind_params:
  "\<not> bindable p \<Longrightarrow> \<exists>e. bind_params (payload_params p) = Inl e"
  using bindable_bind_params [of p] by (cases "bind_params (payload_params p)") auto

lemma sql_insert_row_bound:
  "sql_insert_row num schema_columns (map bound (payload_params p)) = stored_row num p"
  by (rule ext)
     (simp add: sql_insert_row_def payload_params_def stored_row_def map_of_zip_map
        in_schema_columns o_def)

lemma insert_report_Some:
  assumes "list_all (\<lambda>c. c \<in> set (declared t)) schema_columns"
  shows "insert_report num p (Some t) =
     (case bind_params (payload_params p) of
        Inl e \<Rightarrow> (Inl e, Some t)
      | Inr vals \<Rightarrow>
          if pk_conflict (stored_row num p) (stored t) then (Inl IntegrityError, Some t)
          else (Inr (), Some (t\<lparr>stored := stored t @ [stored_row num p]\<rparr>)))"
proof (cases "bind_params (payload_params p)")
  case (Inl e)
  then show ?thesis
    unfolding insert_report_def payload_params_list using assms by simp
next
  case (Inr vals)
  then have "vals = map bound (payload_params p)" by (rule bind_params_Inr)
  with Inr show ?thesis
    unfolding insert_report_def payload_params_list using assms
    by (simp add: sql_insert_row_bound Let_def)
qed

lemma insert_report_db:
  "insert_report num p (reports_db rows) =
     (case bind_params (payload_params p) of
        Inl e \<Rightarrow> (Inl e, reports_db rows)
      | Inr vals \<Rightarrow>
          if pk_conflict (stored_row num p) rows then (Inl IntegrityError, reports_db rows)
          else (Inr (), reports_db (rows @ [stored_row num p])))"
  unfolding reports_db_def
  by (simp add: insert_report_Some schema_declared split: sum.splits)

lemma insert_report_Inr:
  assumes "insert_report num p db = (Inr u, db')"
  shows "\<exists>t. db = Some t \<and> list_all (\<lambda>c. c \<in> set (declared t)) schema_columns
             \<and> db' = Some (t\<lparr>stored := stored t @ [stored_row num p]\<rparr>) \<and> bindable p"
proof (cases db)
  case None
  with assms show ?thesis by (simp add: insert_report_def)
next
  case (Some t)
  show ?thesis
  proof (cases "list_all (\<lambda>c. c \<in> set (declared t)) schema_columns")
    case False
    with assms Some show ?thesis by (simp add: insert_report_def)
  next
    case True
    show ?thesis
    proof (cases "bind_params (payload_params p)")
      case (Inl e)
      with assms Some True show ?thesis by (simp add: insert_report_Some)
    next
      case (Inr vals)
      then have "bindable p" using bindable_bind_params by blast
      with assms Some True Inr show ?thesis
        by (simp add: insert_report_Some split: if_splits)
    qed
  qed
qed

lemma insert_report_db_Inr:
  assumes "insert_report num p (reports_db rows) = (Inr u, db')"
  shows "db' = reports_db (rows @ [stored_row num p]) \<and> bindable p"
  using insert_report_Inr [OF assms] by (auto simp: reports_db_def)

section \<open>Running a query\<close>

lemma like_match_percent: "like_match [37] s"
  by (induction s) auto

lemma ci_prefix_Nil2: "ci_prefix v [] = (v = [])"
  by (cases v) auto

lemma like_match_prefix:
  "37 \<notin> set v \<Longrightarrow> 95 \<notin> set v \<Longrightarrow> like_match (v @ [37]) s = ci_prefix v s"
proof (induction v arbitrary: s)
  case Nil
  then show ?case using like_match_percent by simp
next
  case (Cons a v)
  then have "37 \<notin> set v" and "95 \<notin> set v" and "a \<noteq> 37" and "a \<noteq> 95"
    by auto
  with Cons.IH show ?case by (cases s) auto
qed

lemma like_match_contains:
  "37 \<notin> set v \<Longrightarrow> 95 \<notin> set v \<Longrightarrow> like_match (37 # v @ [37]) s = ci_substring v s"
proof (induction s)
  case Nil
  then show ?case using like_match_prefix [of v "[]"] by (simp add: ci_prefix_Nil2)
next
  case (Cons c cs)
  then show ?case using like_match_prefix [of v "c # cs"] by simp
qed

lemma c_str_no_nul: "0 \<notin> set v \<Longrightarrow> c_str v = v"
  by (induction v) (auto simp: c_str_def)

lemma cond_holds_plain:
  assumes "plain_value v"
  shows "cond_holds r (c, 37 # v @ [37])
           = (case sql_text (r c) of None \<Rightarrow> False | Some s \<Rightarrow> ci_substring v (c_str s))"
proof -
  have "0 \<notin> set (37 # v @ [37])" using assms by (simp add: plain_value_def)
  then have "c_str (37 # v @ [37]) = 37 # v @ [37]" by (rule c_str_no_nul)
  moreover have "like_match (37 # v @ [37]) s = ci_substring v s" for s
    using assms by (intro like_match_contains) (simp_all add: plain_value_def)
  ultimately show ?thesis
    by (simp add: cond_holds_def del: like_match.simps split: option.splits)
qed

lemma add_like_zip:
  assumes "length (fst wp) = length (snd wp)"
  shows "length (fst (add_like fs col key wp)) = length (snd (add_like fs col key wp))"
    and "zip (fst (add_like fs col key wp)) (snd (add_like fs col key wp)) =
           zip (fst wp) (snd wp)
           @ (if filter_value fs key \<noteq> [] then [(col, [37] @ filter_value fs key @ [37])]
              else [])"
  using assms by (simp_all add: add_like_def filter_value_def Let_def)

lemma query_reports_conds:
  "query_reports fs db =
     select_reports (map fst (like_conds fs)) (map snd (like_conds fs)) db"
proof -
  let ?w1 = "add_like fs Col_tacId ''tacId'' ([], [])"
  let ?w2 = "add_like fs Col_plantInspectionReportNumber ''plantInspectionReportNumber'' ?w1"
  let ?w3 = "add_like fs Col_testReportNumber ''testReportNumber'' ?w2"
  let ?w4 = "add_like fs Col_packModel ''packModel'' ?w3"
  have l1: "length (fst ?w1) = length (snd ?w1)" by (rule add_like_zip) simp
  have l2: "length (fst ?w2) = length (snd ?w2)" using l1 by (rule add_like_zip)
  have l3: "length (fst ?w3) = length (snd ?w3)" using l2 by (rule add_like_zip)
  have l4: "length (fst ?w4) = length (snd ?w4)" using l3 by (rule add_like_zip)
  have z: "zip (fst ?w4) (snd ?w4) = like_conds fs"
    unfolding add_like_zip(2) [OF l3] add_like_zip(2) [OF l2] add_like_zip(2) [OF l1]
    by (simp add: add_like_zip(2) like_conds_def filter_keys_def)
  have "map fst (zip (fst ?w4) (snd ?w4)) = fst ?w4"
    and "map snd (zip (fst ?w4) (snd ?w4)) = snd ?w4"
    using l4 by simp_all
  then have "fst ?w4 = map fst (like_conds fs)" and "snd ?w4 = map snd (like_conds fs)"
    using z by simp_all
  then show ?thesis
    by (simp add: query_reports_def Let_def)
qed

lemma sql_where_Inr: "sql_where cs r = Inr b \<Longrightarrow> b = list_all (cond_holds r) cs"
proof (induction cs arbitrary: b)
  case Nil
  then show ?case by simp
next
  case (Cons cp cs)
  obtain c pat where cp: "cp = (c, pat)" by (cases cp)
  show ?case
  proof (cases "50000 < utf8_length pat")
    case True
    with Cons.prems cp show ?thesis by (simp add: sql_like_def)
  next
    case False
    show ?thesis
    proof (cases "cond_holds r (c, pat)")
      case True
      then have "sql_like (r c) pat = Inr (Some True)"
        using False by (auto simp: sql_like_def cond_holds_def split: option.splits)
      with Cons cp True show ?thesis by simp
    next
      case no: False
      then have "\<exists>x. sql_like (r c) pat = Inr x \<and> x \<noteq> Some True"
        using False by (auto simp: sql_like_def cond_holds_def split: option.splits)
      then obtain x where "sql_like (r c) pat = Inr x" and "x \<noteq> Some True" by blast
      with Cons.prems cp no show ?thesis
        by (cases x) (auto split: bool.splits)
    qed
  qed
qed

lemma sql_scan_Inr:
  "sql_scan cs rs = Inr out \<Longrightarrow> out = filter (\<lambda>r. list_all (cond_holds r) cs) rs"
proof (induction rs arbitrary: out)
  case Nil
  then show ?case by simp
next
  case (Cons r rs)
  from Cons.prems obtain keep where k: "sql_where cs r = Inr keep"
    by (cases "sql_where cs r") simp_all
  from Cons.prems k obtain out' where o: "sql_scan cs rs = Inr out'"
    by (cases "sql_scan cs rs") simp_all
  from Cons.prems k o have "out = (if keep then r # out' else out')" by simp
  with Cons.IH [OF o] sql_where_Inr [OF k] show ?case by simp
qed

lemma sql_where_short:
  "list_all (\<lambda>cp. utf8_length (snd cp) \<le> 50000) cs \<Longrightarrow> \<exists>b. sql_where cs r = Inr b"
proof (induction cs)
  case Nil
  have "sql_where [] r = Inr True" by simp
  then show ?case by blast
next
  case (Cons cp cs)
  obtain c pat where cp: "cp = (c, pat)" by (cases cp)
  define x where "x = map_option (\<lambda>s. like_match (c_str pat) (c_str s)) (sql_text (r c))"
  from Cons.prems cp have "\<not> 50000 < utf8_length pat" by simp
  then have x: "sql_like (r c) pat = Inr x"
    by (simp add: sql_like_def x_def)
  from Cons obtain b where b: "sql_where cs r = Inr b" by auto
  show ?case
  proof (cases "x = Some True")
    case True
    with cp x b show ?thesis by simp
  next
    case False
    with cp x have "sql_where (cp # cs) r = Inr False"
      by (cases x) (auto split: bool.splits)
    then show ?thesis by blast
  qed
qed

lemma sql_scan_short:
  "list_all (\<lambda>cp. utf8_length (snd cp) \<le> 50000) cs \<Longrightarrow> \<exists>out. sql_scan cs rs = Inr out"
proof (induction rs)
  case Nil
  then show ?case by simp
next
  case (Cons r rs)
  then obtain out where "sql_scan cs rs = Inr out" by auto
  moreover obtain b where "sql_where cs r = Inr b"
    using sql_where_short [OF Cons.prems] by blast
  ultimately show ?case by simp
qed

lemma sql_where_True_short:
  "sql_where cs r = Inr True \<Longrightarrow> list_all (\<lambda>cp. utf8_length (snd cp) \<le> 50000) cs"
proof (induction cs)
  case Nil
  then show ?case by simp
next
  case (Cons cp cs)
  obtain c pat where cp: "cp = (c, pat)" by (cases cp)
  from Cons.prems cp have s: "\<not> 50000 < utf8_length pat"
    by (auto simp: sql_like_def split: if_splits)
  from Cons.prems cp have "sql_where cs r = Inr True"
    by (auto split: sum.splits option.splits bool.splits)
  with Cons.IH s cp show ?case by simp
qed

lemma sql_scan_kept_short:
  assumes "sql_scan cs rs = Inr out" and "out \<noteq> []"
  shows "list_all (\<lambda>cp. utf8_length (snd cp) \<le> 50000) cs"
  using assms
proof (induction rs arbitrary: out)
  case Nil
  then show ?case by simp
next
  case (Cons r rs)
  from Cons.prems obtain keep where k: "sql_where cs r = Inr keep"
    by (cases "sql_where cs r") simp_all
  from Cons.prems k obtain out' where o: "sql_scan cs rs = Inr out'"
    by (cases "sql_scan cs rs") simp_all
  show ?case
  proof (cases keep)
    case True
    with k have "sql_where cs r = Inr True" by simp
    then show ?thesis by (rule sql_where_True_short)
  next
    case False
    with Cons.prems k o have "out' = out" by simp
    with Cons.IH [OF o] Cons.prems show ?thesis by simp
  qed
qed

lemma select_reports_Inr:
  assumes "select_reports whr params db = Inr res"
  shows "\<exists>t out. db = Some t
           \<and> list_all (\<lambda>c. c \<in> set (declared t)) (whr @ [Col_createdAt])
           \<and> (\<exists>vals. bind_params (map JStr params) = Inr vals)
           \<and> sql_scan (zip whr params) (stored t) = Inr out
           \<and> res = order_by_desc Col_createdAt out"
  using assms
  by (auto simp: select_reports_def split: option.splits if_splits sum.splits)

lemma query_reports_Inr:
  assumes "query_reports fs db = Inr res"
  shows "\<exists>t. db = Some t
           \<and> res = order_by_desc Col_createdAt
                     (filter (\<lambda>r. list_all (cond_holds r) (like_conds fs)) (stored t))"
proof -
  from assms obtain t out where t: "db = Some t"
    and s: "sql_scan (zip (map fst (like_conds fs)) (map snd (like_conds fs))) (stored t) = Inr out"
    and r: "res = order_by_desc Col_createdAt out"
    unfolding query_reports_conds using select_reports_Inr by blast
  have "zip (map fst (like_conds fs)) (map snd (like_conds fs)) = like_conds fs"
    by (simp add: zip_map_fst_snd)
  with s have "out = filter (\<lambda>r. list_all (cond_holds r) (like_conds fs)) (stored t)"
    using sql_scan_Inr by simp
  with t r show ?thesis by simp
qed

lemma sql_scan_Nil: "sql_scan [] rows = Inr rows"
  by (induction rows) simp_all

lemma query_reports_no_filters:
  "query_reports Map.empty (reports_db rows) = Inr (order_by_desc Col_createdAt rows)"
  by (simp add: query_reports_def add_like_def strip_def select_reports_def reports_db_def
      schema_columns_def sql_scan_Nil)

section \<open>Evaluating the examples\<close>

lemma ustr_eq [simp]: "ustr a = ustr b \<longleftrightarrow> a = b"
proof -
  have "inj (of_char :: char \<Rightarrow> nat)"
    by (rule inj_on_inverseI [where g = char_of]) simp
  then show ?thesis by (simp add: ustr_def inj_map_eq_map)
qed

lemma query_reports_Some:
  "query_reports fs (Some t) =
     (if \<not> list_all (\<lambda>c. c \<in> set (declared t)) (map fst (like_conds fs) @ [Col_createdAt])
      then Inl OperationalError
      else
        (case bind_params (map JStr (map snd (like_conds fs))) of
           Inl e \<Rightarrow> Inl e
         | Inr vals \<Rightarrow>
             (case sql_scan (like_conds fs) (stored t) of
                Inl e \<Rightarrow> Inl e
              | Inr out \<Rightarrow> Inr (order_by_desc Col_createdAt out))))"
  by (simp add: query_reports_conds select_reports_def zip_map_fst_snd split: sum.splits)

lemma query_reports_db:
  "query_reports fs (reports_db rows) =
     (case bind_params (map JStr (map snd (like_conds fs))) of
        Inl e \<Rightarrow> Inl e
      | Inr vals \<Rightarrow>
          (case sql_scan (like_conds fs) rows of
             Inl e \<Rightarrow> Inl e
           | Inr out \<Rightarrow> Inr (order_by_desc Col_createdAt out)))"
proof -
  have "list_all (\<lambda>c. c \<in> set schema_columns) (map fst (like_conds fs) @ [Col_createdAt])"
    by (rule schema_declared)
  then show ?thesis
    by (simp add: reports_db_def query_reports_Some split: sum.splits)
qed

lemma like_conds_padded: "like_conds filters_padded = [(Col_tacId, [37, 98, 67, 49, 37])]"
  by (simp add: like_conds_def filter_keys_def filter_value_def filters_padded_def strip_def
      is_space_def)

lemma like_conds_bc1: "like_conds filters_bc1 = [(Col_tacId, [37, 98, 99, 49, 37])]"
  by (simp add: like_conds_def filter_keys_def filter_value_def filters_bc1_def strip_def
      is_space_def)

lemma like_conds_no_model:
  "like_conds filters_no_model = [(Col_tacId, [37, 66, 67, 49, 37]), (Col_packModel, [37, 78, 111, 37])]"
  by (simp add: like_conds_def filter_keys_def filter_value_def filters_no_model_def strip_def
      is_space_def)

lemma stored_createdAt_int:
  "py_get p ''createdAt'' = JInt n \<Longrightarrow> - (2 ^ 63) \<le> n \<Longrightarrow> n < 2 ^ 63 \<Longrightarrow>
     stored_row num p Col_createdAt = SInt n"
  by (simp add: stored_row_def bound_def)

lemma bindable_10: "bindable payload_10"
  by (simp add: bindable_def schema_columns_def payload_10_def py_get_def is_surrogate_def ustr_def)

lemma bindable_30: "bindable payload_30"
  by (simp add: bindable_def schema_columns_def payload_30_def py_get_def is_surrogate_def ustr_def)

lemma bindable_20: "bindable payload_20"
  by (simp add: bindable_def schema_columns_def payload_20_def py_get_def is_surrogate_def ustr_def)

lemma stored_id_text:
  "py_get p ''id'' = JStr s \<Longrightarrow> \<not> list_ex is_surrogate s \<Longrightarrow> stored_row num p Col_id = SText s"
  by (simp add: stored_row_def bound_def)

lemma stored_id_null: "py_get p ''id'' = JNull \<Longrightarrow> stored_row num p Col_id = SNull"
  by (simp add: stored_row_def bound_def)

lemma insert_report_bindable:
  assumes "bindable p"
  shows "insert_report num p (reports_db rows) =
     (if pk_conflict (stored_row num p) rows then (Inl IntegrityError, reports_db rows)
      else (Inr (), reports_db (rows @ [stored_row num p])))"
proof -
  from assms obtain vals where "bind_params (payload_params p) = Inr vals"
    using bindable_bind_params by blast
  then show ?thesis by (simp add: insert_report_db)
qed

section \<open>Initialising the store\<close>

text \<open>
  Claim C6: initialising the storage is idempotent. \<open>init_db\<close> raises no error, on a store
  without the table and on one that has it. A second call on an initialised store returns
  without error and leaves the store as it is: there is still the one \<open>reports\<close> table, with
  the columns it had and the rows it had, so that every query and the statistics give what
  they gave before the call. On a store without the table the call creates the table with the
  14 columns of \<open>SCHEMA\<close>, 13 of them TEXT and \<open>createdAt\<close> INTEGER, and no row.
\<close>

theorem init_db_idempotent:
  "fst (init_db db) = Inr ()
   \<and> init_db (snd (init_db db)) = (Inr (), snd (init_db db))
   \<and> init_db (Some t) = (Inr (), Some t)
   \<and> query_reports fs (snd (init_db (Some t))) = query_reports fs (Some t)
   \<and> stats (snd (init_db (Some t))) = stats (Some t)
   \<and> init_db None =
       (Inr (),
        Some \<lparr>declared =
                [Col_id, Col_user, Col_inspectionDate, Col_manufactureName, Col_address,
                 Col_country, Col_city, Col_pincode, Col_tacId,
                 Col_plantInspectionReportNumber, Col_testReportNumber, Col_packModel,
                 Col_remark, Col_createdAt],
              stored = []\<rparr>)
   \<and> map col_name schema_columns =
       [''id'', ''user'', ''inspectionDate'', ''manufactureName'', ''address'', ''country'',
        ''city'', ''pincode'', ''tacId'', ''plantInspectionReportNumber'',
        ''testReportNumber'', ''packModel'', ''remark'', ''createdAt'']
   \<and> map col_affinity schema_columns =
       [TEXT, TEXT, TEXT, TEXT, TEXT, TEXT, TEXT, TEXT, TEXT, TEXT, TEXT, TEXT, TEXT, INTEGER]"
proof (intro conjI)
  show "fst (init_db db) = Inr ()"
    by (cases db) (simp_all add: init_db_def)
  show "init_db (snd (init_db db)) = (Inr (), snd (init_db db))"
    by (cases db) (simp_all add: init_db_def)
  show i: "init_db (Some t) = (Inr (), Some t)"
    by (simp add: init_db_def)
  show "query_reports fs (snd (init_db (Some t))) = query_reports fs (Some t)"
    by (simp add: i)
  show "stats (snd (init_db (Some t))) = stats (Some t)"
    by (simp add: i)
qed (simp_all add: init_db_def schema_columns_def)

theorem init_db_idempotent_witness:
  "init_db (reports_db [row_abc, row_xyz]) = (Inr (), reports_db [row_abc, row_xyz])
   \<and> init_db (snd (init_db None)) = (Inr (), reports_db [])
   \<and> query_reports filters_padded (snd (init_db (reports_db [row_abc, row_xyz])))
       = Inr [row_abc]
   \<and> stats (snd (init_db (reports_db [row_abc, row_xyz])))
       = Inr \<lparr>tacIssued = 2, testReportIssued = 0\<rparr>"
proof -
  let ?t = "\<lparr>declared = schema_columns, stored = [row_abc, row_xyz]\<rparr>"
  note t = init_db_idempotent [of None ?t filters_padded]
  have q: "query_reports filters_padded (reports_db [row_abc, row_xyz]) = Inr [row_abc]"
    by (simp add: query_reports_db like_conds_padded sql_like_def c_str_def lower_ascii_def
        row_abc_def row_xyz_def null_row_def is_surrogate_def)
  have s: "stats (reports_db [row_abc, row_xyz]) = Inr \<lparr>tacIssued = 2, testReportIssued = 0\<rparr>"
    by (simp add: stats_def reports_db_def schema_columns_def row_abc_def row_xyz_def
        null_row_def sql_is_not_null_def sql_trim_def sql_trim_text_def sql_ne_def)
  from t have t1: "init_db (snd (init_db None)) = (Inr (), snd (init_db None))" by blast
  from t have t2: "snd (init_db None) = reports_db []"
    by (simp add: reports_db_def schema_columns_def)
  from t have t3: "init_db (Some ?t) = (Inr (), Some ?t)" by blast
  from t have t4: "query_reports filters_padded (snd (init_db (Some ?t)))
                     = query_reports filters_padded (Some ?t)" by blast
  from t have t5: "stats (snd (init_db (Some ?t))) = stats (Some ?t)" by blast
  have w1: "init_db (reports_db [row_abc, row_xyz]) = (Inr (), reports_db [row_abc, row_xyz])"
    using t3 by (simp only: reports_db_def)
  have w2: "init_db (snd (init_db None)) = (Inr (), reports_db [])"
    using t1 by (simp only: t2)
  have w3: "query_reports filters_padded (snd (init_db (reports_db [row_abc, row_xyz])))
              = Inr [row_abc]"
    using t4 q by (simp only: reports_db_def)
  have w4: "stats (snd (init_db (reports_db [row_abc, row_xyz])))
              = Inr \<lparr>tacIssued = 2, testReportIssued = 0\<rparr>"
    using t5 s by (simp only: reports_db_def)
  from w1 w2 w3 w4 show ?thesis by blast
qed

section \<open>Filtering\<close>

lemma conds_row_matches:
  assumes "list_all (\<lambda>(c, k). plain_value (filter_value fs k)) ks"
  shows "list_all (cond_holds r)
           (concat (map (\<lambda>(c, k). if filter_value fs k \<noteq> []
                                    then [(c, [37] @ filter_value fs k @ [37])] else []) ks))
         = list_all (\<lambda>(c, k). filter_value fs k \<noteq> [] \<longrightarrow>
                       (case sql_text (r c) of
                          None \<Rightarrow> False
                        | Some s \<Rightarrow> ci_substring (filter_value fs k) (c_str s))) ks"
  using assms
proof (induction ks)
  case Nil
  then show ?case by simp
next
  case (Cons ck ks)
  obtain c k where ck: "ck = (c, k)" by (cases ck)
  from Cons.prems ck have p: "plain_value (filter_value fs k)" by simp
  from Cons have ih: "list_all (cond_holds r)
           (concat (map (\<lambda>(c, k). if filter_value fs k \<noteq> []
                                    then [(c, [37] @ filter_value fs k @ [37])] else []) ks))
         = list_all (\<lambda>(c, k). filter_value fs k \<noteq> [] \<longrightarrow>
                       (case sql_text (r c) of
                          None \<Rightarrow> False
                        | Some s \<Rightarrow> ci_substring (filter_value fs k) (c_str s))) ks"
    by simp
  show ?case
    unfolding ck using ih cond_holds_plain [OF p, of r c] by simp
qed

lemma cond_holds_row_matches:
  assumes "list_all (\<lambda>(c, k). plain_value (filter_value fs k)) filter_keys"
  shows "list_all (cond_holds r) (like_conds fs) = row_matches ci_substring fs r"
  unfolding like_conds_def row_matches_def using assms by (rule conds_row_matches)

lemma utf8_length_append: "utf8_length (a @ b) = utf8_length a + utf8_length b"
  by (induction a) simp_all

lemma like_conds_values:
  "cp \<in> set (like_conds fs) \<Longrightarrow>
     \<exists>c k. (c, k) \<in> set filter_keys \<and> snd cp = [37] @ filter_value fs k @ [37]"
  by (fastforce simp: like_conds_def split: if_splits)

lemma short_values_return:
  assumes "list_all (\<lambda>(c, k). short_value (filter_value fs k)) filter_keys"
  shows "\<exists>res. query_reports fs (reports_db rows) = Inr res"
proof -
  have s: "\<not> list_ex is_surrogate (snd cp) \<and> utf8_length (snd cp) \<le> 50000"
    if "cp \<in> set (like_conds fs)" for cp
  proof -
    from that obtain c k where k: "(c, k) \<in> set filter_keys"
      and v: "snd cp = [37] @ filter_value fs k @ [37]"
      using like_conds_values by blast
    from assms k have "short_value (filter_value fs k)"
      by (auto simp: list_all_iff)
    then show ?thesis
      by (simp add: v short_value_def utf8_length_append is_surrogate_def list_ex_iff)
  qed
  have "\<forall>v \<in> set (map JStr (map snd (like_conds fs))). \<exists>x. bind_param v = Inr x"
    using s by auto
  then obtain vals where b: "bind_params (map JStr (map snd (like_conds fs))) = Inr vals"
    using bind_params_ok by blast
  have "list_all (\<lambda>cp. utf8_length (snd cp) \<le> 50000) (like_conds fs)"
    using s by (simp add: list_all_iff)
  then obtain out where "sql_scan (like_conds fs) rows = Inr out"
    using sql_scan_short by blast
  with b show ?thesis by (simp add: query_reports_db)
qed

lemma long_value_refused:
  assumes "49998 < utf8_length (filter_value fs ''tacId'')"
    and "list_all (\<lambda>(c, k). \<not> list_ex is_surrogate (filter_value fs k)) filter_keys"
  shows "query_reports fs (reports_db (r # rows)) = Inl OperationalError"
proof -
  let ?pat = "[37] @ filter_value fs ''tacId'' @ [37]"
  from assms(1) have ne: "filter_value fs ''tacId'' \<noteq> []" by auto
  then obtain cs where l: "like_conds fs = (Col_tacId, ?pat) # cs"
    by (simp add: like_conds_def filter_keys_def)
  have "\<not> list_ex is_surrogate (snd cp)" if "cp \<in> set (like_conds fs)" for cp
  proof -
    from that obtain c k where k: "(c, k) \<in> set filter_keys"
      and v: "snd cp = [37] @ filter_value fs k @ [37]"
      using like_conds_values by blast
    from assms(2) k have "\<not> list_ex is_surrogate (filter_value fs k)"
      by (auto simp: list_all_iff)
    then show ?thesis by (simp add: v is_surrogate_def list_ex_iff)
  qed
  then have "\<forall>v \<in> set (map JStr (map snd (like_conds fs))). \<exists>x. bind_param v = Inr x"
    by auto
  then obtain vals where b: "bind_params (map JStr (map snd (like_conds fs))) = Inr vals"
    using bind_params_ok by blast
  from assms(1) have "50000 < utf8_length ?pat"
    by (simp add: utf8_length_append)
  then have "sql_where ((Col_tacId, ?pat) # cs) r = Inl OperationalError"
    by (simp add: sql_like_def del: utf8_length.simps)
  then have "sql_scan (like_conds fs) (r # rows) = Inl OperationalError"
    by (simp add: l del: sql_where.simps)
  with b show ?thesis by (simp add: query_reports_db)
qed

text \<open>
  Claim C1, as amended. Take a filter mapping whose four trimmed values contain no \<open>%\<close>, no
  \<open>_\<close> and no NUL character. Whenever \<open>query_reports\<close> returns, it returns exactly the stored
  rows such that, for each key whose value is not blank after trimming whitespace, the column
  is not NULL and the trimmed value occurs in the column's text, read up to its first NUL
  character, when the case of the letters A to Z is ignored; the conditions are combined with
  AND, and a blank or absent key imposes none. It returns whenever each trimmed value has no
  surrogate code point and at most 49998 bytes in UTF-8; a longer value makes a pattern that
  \<open>LIKE\<close> refuses. The claim as stated asks for a substring: with one row whose tacId is
  \<open>ABC123\<close> the filter \<open>bc1\<close> returns the row, although \<open>bc1\<close> does not occur in \<open>ABC123\<close>.
\<close>

theorem query_reports_filter:
  assumes "list_all (\<lambda>(c, k). plain_value (filter_value fs k)) filter_keys"
  shows "(\<forall>res. query_reports fs (reports_db rows) = Inr res \<longrightarrow>
            mset res = filter_mset (row_matches ci_substring fs) (mset rows))
         \<and> (list_all (\<lambda>(c, k). short_value (filter_value fs k)) filter_keys \<longrightarrow>
              (\<exists>res. query_reports fs (reports_db rows) = Inr res))"
proof (intro conjI allI impI)
  fix res
  assume "query_reports fs (reports_db rows) = Inr res"
  then have "res = order_by_desc Col_createdAt
                     (filter (\<lambda>r. list_all (cond_holds r) (like_conds fs)) rows)"
    using query_reports_Inr [of fs "reports_db rows" res] by (auto simp: reports_db_def)
  then show "mset res = filter_mset (row_matches ci_substring fs) (mset rows)"
    by (simp add: mset_order_by_desc cond_holds_row_matches [OF assms])
next
  assume "list_all (\<lambda>(c, k). short_value (filter_value fs k)) filter_keys"
  then show "\<exists>res. query_reports fs (reports_db rows) = Inr res"
    by (rule short_values_return)
qed

theorem query_reports_filter_witness:
  "filter_value filters_padded ''tacId'' = [98, 67, 49]
   \<and> filter_value filters_padded ''packModel'' = []
   \<and> list_all (\<lambda>(c, k). plain_value (filter_value filters_padded k)) filter_keys
   \<and> list_all (\<lambda>(c, k). short_value (filter_value filters_padded k)) filter_keys
   \<and> query_reports filters_padded (reports_db [row_abc, row_xyz, row_nul]) = Inr [row_abc]
   \<and> filter_mset (row_matches ci_substring filters_padded) (mset [row_abc, row_xyz, row_nul])
       = mset [row_abc]
   \<and> row_matches ci_substring filters_padded row_abc
   \<and> row_matches ci_substring filters_padded row_nul = False
   \<and> list_all (\<lambda>(c, k). plain_value (filter_value filters_no_model k)) filter_keys
   \<and> query_reports filters_no_model (reports_db [row_abc, row_xyz, row_nul]) = Inr []
   \<and> filter_mset (row_matches ci_substring filters_no_model) (mset [row_abc, row_xyz, row_nul])
       = {#}"
proof -
  have v1: "filter_value filters_padded ''tacId'' = [98, 67, 49]"
    by (simp add: filter_value_def filters_padded_def strip_def is_space_def)
  have v2: "filter_value filters_padded ''packModel'' = []"
    by (simp add: filter_value_def filters_padded_def strip_def is_space_def)
  have v3: "filter_value filters_padded ''plantInspectionReportNumber'' = []"
    by (simp add: filter_value_def filters_padded_def strip_def)
  have v4: "filter_value filters_padded ''testReportNumber'' = []"
    by (simp add: filter_value_def filters_padded_def strip_def)
  have p: "list_all (\<lambda>(c, k). plain_value (filter_value filters_padded k)) filter_keys"
    by (simp add: filter_keys_def v1 v2 v3 v4 plain_value_def)
  have s: "list_all (\<lambda>(c, k). short_value (filter_value filters_padded k)) filter_keys"
    by (simp add: filter_keys_def v1 v2 v3 v4 short_value_def is_surrogate_def)
  have q: "query_reports filters_padded (reports_db [row_abc, row_xyz, row_nul]) = Inr [row_abc]"
    by (simp add: query_reports_db like_conds_padded sql_like_def c_str_def lower_ascii_def
        row_abc_def row_xyz_def row_nul_def null_row_def is_surrogate_def)
  have m1: "row_matches ci_substring filters_padded row_abc"
    by (simp add: row_matches_def filter_keys_def v1 v2 v3 v4 row_abc_def null_row_def
        c_str_def lower_ascii_def)
  have m2: "row_matches ci_substring filters_padded row_nul = False"
    by (simp add: row_matches_def filter_keys_def v1 v2 v3 v4 row_nul_def null_row_def
        c_str_def lower_ascii_def)
  have w1: "filter_value filters_no_model ''tacId'' = [66, 67, 49]"
    by (simp add: filter_value_def filters_no_model_def strip_def is_space_def)
  have w2: "filter_value filters_no_model ''packModel'' = [78, 111]"
    by (simp add: filter_value_def filters_no_model_def strip_def is_space_def)
  have w3: "filter_value filters_no_model ''plantInspectionReportNumber'' = []"
    by (simp add: filter_value_def filters_no_model_def strip_def)
  have w4: "filter_value filters_no_model ''testReportNumber'' = []"
    by (simp add: filter_value_def filters_no_model_def strip_def)
  have p': "list_all (\<lambda>(c, k). plain_value (filter_value filters_no_model k)) filter_keys"
    by (simp add: filter_keys_def w1 w2 w3 w4 plain_value_def)
  have q': "query_reports filters_no_model (reports_db [row_abc, row_xyz, row_nul]) = Inr []"
    by (simp add: query_reports_db like_conds_no_model sql_like_def c_str_def lower_ascii_def
        row_abc_def row_xyz_def row_nul_def null_row_def is_surrogate_def)
  from query_reports_filter [OF p, of "[row_abc, row_xyz, row_nul]"] q
  have f: "filter_mset (row_matches ci_substring filters_padded)
             (mset [row_abc, row_xyz, row_nul]) = mset [row_abc]"
    by (simp del: filter_mset_add_mset)
  from query_reports_filter [OF p', of "[row_abc, row_xyz, row_nul]"] q'
  have f': "filter_mset (row_matches ci_substring filters_no_model)
              (mset [row_abc, row_xyz, row_nul]) = {#}"
    by (simp del: filter_mset_add_mset)
  from v1 v2 p s q f m1 m2 p' q' f' show ?thesis by (intro conjI)
qed

theorem query_reports_substring_counterexample:
  "filter_value filters_bc1 ''tacId'' = [98, 99, 49]
   \<and> row_abc Col_tacId = SText [65, 66, 67, 49, 50, 51]
   \<and> query_reports filters_bc1 (reports_db [row_abc]) = Inr [row_abc]
   \<and> is_substring [98, 99, 49] [65, 66, 67, 49, 50, 51] = False
   \<and> row_matches is_substring filters_bc1 row_abc = False"
proof -
  have v1: "filter_value filters_bc1 ''tacId'' = [98, 99, 49]"
    by (simp add: filter_value_def filters_bc1_def strip_def is_space_def)
  have t: "row_abc Col_tacId = SText [65, 66, 67, 49, 50, 51]"
    by (simp add: row_abc_def)
  have q: "query_reports filters_bc1 (reports_db [row_abc]) = Inr [row_abc]"
    by (simp add: query_reports_db like_conds_bc1 sql_like_def c_str_def lower_ascii_def
        row_abc_def null_row_def is_surrogate_def)
  have i: "is_substring [98, 99, 49] [65, 66, 67, 49, 50, 51] = False"
    by simp
  have m: "row_matches is_substring filters_bc1 row_abc = False"
    by (simp add: row_matches_def filter_keys_def v1 t c_str_def)
  from v1 t q i m show ?thesis by (intro conjI)
qed

section \<open>Order of the results\<close>

text \<open>
  Claim C3: for every state of the store and every filter mapping, the list that
  \<open>query_reports\<close> returns is ordered by \<open>createdAt\<close>, descending, in the order SQLite gives
  values (NULL below numbers below texts). This is stated of every call that returns a list;
  a call that raises an error returns none. Three rows inserted with \<open>createdAt\<close> 10, 30 and 20,
  in that order, come back from a query without filters in the order 30, 20, 10.
\<close>

theorem query_reports_ordered:
  "(\<forall>res. query_reports fs db = Inr res \<longrightarrow> sorted_wrt (descending Col_createdAt) res)
   \<and> (py_get p1 ''createdAt'' = JInt 10 \<and> py_get p2 ''createdAt'' = JInt 30
        \<and> py_get p3 ''createdAt'' = JInt 20
        \<and> insert_report num p1 (reports_db []) = (Inr (), db1)
        \<and> insert_report num p2 db1 = (Inr (), db2)
        \<and> insert_report num p3 db2 = (Inr (), db3)
      \<longrightarrow> (\<exists>a b c. db3 = reports_db [a, b, c]
            \<and> a Col_createdAt = SInt 10 \<and> b Col_createdAt = SInt 30 \<and> c Col_createdAt = SInt 20
            \<and> query_reports Map.empty db3 = Inr [b, c, a]))"
proof (intro conjI impI allI)
  fix res
  assume "query_reports fs db = Inr res"
  then obtain t :: table where
    "res = order_by_desc Col_createdAt
             (filter (\<lambda>r. list_all (cond_holds r) (like_conds fs)) (stored t))"
    using query_reports_Inr by blast
  then show "sorted_wrt (descending Col_createdAt) res"
    by (simp add: sorted_order_by_desc)
next
  assume h: "py_get p1 ''createdAt'' = JInt 10 \<and> py_get p2 ''createdAt'' = JInt 30
        \<and> py_get p3 ''createdAt'' = JInt 20
        \<and> insert_report num p1 (reports_db []) = (Inr (), db1)
        \<and> insert_report num p2 db1 = (Inr (), db2)
        \<and> insert_report num p3 db2 = (Inr (), db3)"
  define a where "a = stored_row num p1"
  define b where "b = stored_row num p2"
  define c where "c = stored_row num p3"
  have d1: "db1 = reports_db [a]"
    using h insert_report_db_Inr [of num p1 "[]" "()" db1] by (simp add: a_def)
  have d2: "db2 = reports_db [a, b]"
    using h d1 insert_report_db_Inr [of num p2 "[a]" "()" db2] by (simp add: b_def)
  have d3: "db3 = reports_db [a, b, c]"
    using h d2 insert_report_db_Inr [of num p3 "[a, b]" "()" db3] by (simp add: c_def)
  have ca: "a Col_createdAt = SInt 10"
    unfolding a_def using h by (intro stored_createdAt_int) simp_all
  have cb: "b Col_createdAt = SInt 30"
    unfolding b_def using h by (intro stored_createdAt_int) simp_all
  have cc: "c Col_createdAt = SInt 20"
    unfolding c_def using h by (intro stored_createdAt_int) simp_all
  have "query_reports Map.empty db3 = Inr [b, c, a]"
    by (simp add: d3 query_reports_no_filters ca cb cc)
  with d3 ca cb cc show "\<exists>a b c. db3 = reports_db [a, b, c]
            \<and> a Col_createdAt = SInt 10 \<and> b Col_createdAt = SInt 30 \<and> c Col_createdAt = SInt 20
            \<and> query_reports Map.empty db3 = Inr [b, c, a]"
    by blast
qed

theorem query_reports_ordered_witness:
  "query_reports Map.empty
      (reports_db [row_created SNull, row_created (SInt 5), row_created (SText [53]),
                   row_created (SInt 7), row_created (SText [49, 48])])
     = Inr [row_created (SText [53]), row_created (SText [49, 48]), row_created (SInt 7),
            row_created (SInt 5), row_created SNull]
   \<and> sorted_wrt (descending Col_createdAt)
        [row_created (SText [53]), row_created (SText [49, 48]), row_created (SInt 7),
         row_created (SInt 5), row_created SNull]
   \<and> (\<exists>a b c.
         insert_report SText payload_20
           (snd (insert_report SText payload_30
              (snd (insert_report SText payload_10 (reports_db [])))))
           = (Inr (), reports_db [a, b, c])
         \<and> a Col_createdAt = SInt 10 \<and> b Col_createdAt = SInt 30 \<and> c Col_createdAt = SInt 20
         \<and> query_reports Map.empty (reports_db [a, b, c]) = Inr [b, c, a])"
proof -
  let ?a = "stored_row SText payload_10"
  let ?b = "stored_row SText payload_30"
  let ?c = "stored_row SText payload_20"
  let ?rows = "[row_created SNull, row_created (SInt 5), row_created (SText [53]),
                row_created (SInt 7), row_created (SText [49, 48])]"
  have ia: "?a Col_id = SText (ustr ''a'')"
    by (rule stored_id_text) (simp_all add: payload_10_def py_get_def ustr_def is_surrogate_def)
  have ib: "?b Col_id = SText (ustr ''b'')"
    by (rule stored_id_text) (simp_all add: payload_30_def py_get_def ustr_def is_surrogate_def)
  have ic: "?c Col_id = SText (ustr ''c'')"
    by (rule stored_id_text) (simp_all add: payload_20_def py_get_def ustr_def is_surrogate_def)
  have i1: "insert_report SText payload_10 (reports_db []) = (Inr (), reports_db [?a])"
    by (simp add: insert_report_bindable bindable_10 pk_conflict_def)
  have i2: "insert_report SText payload_30 (reports_db [?a]) = (Inr (), reports_db [?a, ?b])"
    by (simp add: insert_report_bindable bindable_30 pk_conflict_def ia ib)
  have i3: "insert_report SText payload_20 (reports_db [?a, ?b])
              = (Inr (), reports_db [?a, ?b, ?c])"
    by (simp add: insert_report_bindable bindable_20 pk_conflict_def ia ib ic)
  have g: "py_get payload_10 ''createdAt'' = JInt 10 \<and> py_get payload_30 ''createdAt'' = JInt 30
        \<and> py_get payload_20 ''createdAt'' = JInt 20"
    by (simp add: payload_10_def payload_30_def payload_20_def py_get_def)
  have q: "query_reports Map.empty (reports_db ?rows)
             = Inr [row_created (SText [53]), row_created (SText [49, 48]), row_created (SInt 7),
                    row_created (SInt 5), row_created SNull]"
    by (simp add: query_reports_no_filters row_created_def)
  note t = query_reports_ordered [of Map.empty "reports_db ?rows" payload_10 payload_30
      payload_20 SText "reports_db [?a]" "reports_db [?a, ?b]" "reports_db [?a, ?b, ?c]"]
  from t q have s: "sorted_wrt (descending Col_createdAt)
        [row_created (SText [53]), row_created (SText [49, 48]), row_created (SInt 7),
         row_created (SInt 5), row_created SNull]"
    by blast
  from t i1 i2 i3 g have e: "\<exists>a b c. reports_db [?a, ?b, ?c] = reports_db [a, b, c]
            \<and> a Col_createdAt = SInt 10 \<and> b Col_createdAt = SInt 30 \<and> c Col_createdAt = SInt 20
            \<and> query_reports Map.empty (reports_db [?a, ?b, ?c]) = Inr [b, c, a]"
    by blast
  from e obtain a b c where eq: "reports_db [?a, ?b, ?c] = reports_db [a, b, c]"
    and v: "a Col_createdAt = SInt 10" "b Col_createdAt = SInt 30" "c Col_createdAt = SInt 20"
    and r: "query_reports Map.empty (reports_db [?a, ?b, ?c]) = Inr [b, c, a]"
    by blast
  have "insert_report SText payload_20
           (snd (insert_report SText payload_30
              (snd (insert_report SText payload_10 (reports_db [])))))
           = (Inr (), reports_db [?a, ?b, ?c])"
    by (simp add: i1 i2 i3)
  then have i: "insert_report SText payload_20
           (snd (insert_report SText payload_30
              (snd (insert_report SText payload_10 (reports_db [])))))
           = (Inr (), reports_db [a, b, c])"
    by (simp only: eq)
  from r have r': "query_reports Map.empty (reports_db [a, b, c]) = Inr [b, c, a]"
    by (simp only: eq)
  from q s i v r' show ?thesis by blast
qed

section \<open>Statistics\<close>

lemma sql_and_True: "sql_and a b = Some True \<longleftrightarrow> a = Some True \<and> b = Some True"
  by (cases "(a, b)" rule: sql_and.cases) simp_all

lemma dropWhile_all: "dropWhile P xs = [] \<longleftrightarrow> (\<forall>x \<in> set xs. P x)"
  by (induction xs) auto

lemma dropWhile_rest: "(\<forall>x \<in> set (dropWhile P xs). P x) \<longleftrightarrow> (\<forall>x \<in> set xs. P x)"
  by (induction xs) auto

lemma sql_trim_text_empty: "sql_trim_text s = [] \<longleftrightarrow> (\<forall>c \<in> set s. c = 0x20)"
  by (simp add: sql_trim_text_def dropWhile_all dropWhile_rest)

lemma where_non_blank:
  "(sql_and (sql_is_not_null v) (sql_ne (sql_trim v) (SText [])) = Some True)
     = non_blank is_blank_space v"
  by (cases v)
     (simp_all add: sql_is_not_null_def sql_ne_def sql_trim_def non_blank_def sql_and_True
        sql_trim_text_empty is_blank_space_def list_ex_iff)

lemma non_blank_not_null: "non_blank blank v \<Longrightarrow> v \<noteq> SNull"
  by (auto simp: non_blank_def)

text \<open>
  Claim C2, as amended. \<open>stats\<close> returns the record of \<open>tacIssued\<close> and \<open>testReportIssued\<close>,
  where \<open>tacIssued\<close> is the number of distinct \<open>tacId\<close> values among the rows whose \<open>tacId\<close> is
  not NULL and has a character other than the space U+0020, and \<open>testReportIssued\<close> is the
  number of rows whose \<open>testReportNumber\<close> is not NULL and has a character other than the
  space; both are 0 on an empty table. Blank is what \<open>TRIM\<close> leaves empty, and \<open>TRIM\<close> removes
  spaces only. The claim as stated speaks of trimming, which for the filters is the trimming
  of whitespace: a \<open>tacId\<close> that is one tab character is blank in that sense, and is counted.
\<close>

theorem stats_counts:
  "stats (reports_db rows) =
     Inr \<lparr>tacIssued =
            int (card {v \<in> (\<lambda>r. r Col_tacId) ` set rows. non_blank is_blank_space v}),
          testReportIssued =
            int (size (filter_mset (\<lambda>r. non_blank is_blank_space (r Col_testReportNumber))
                         (mset rows)))\<rparr>
   \<and> stats (reports_db []) = Inr \<lparr>tacIssued = 0, testReportIssued = 0\<rparr>"
proof -
  let ?nb = "non_blank is_blank_space"
  let ?vals = "filter (\<lambda>v. v \<noteq> SNull)
                 (map (\<lambda>r. r Col_tacId) (filter (\<lambda>r. ?nb (r Col_tacId)) rows))"
  have "set ?vals = {v \<in> (\<lambda>r. r Col_tacId) ` set rows. ?nb v}"
    using non_blank_not_null by auto
  then have t: "length (remdups ?vals) = card {v \<in> (\<lambda>r. r Col_tacId) ` set rows. ?nb v}"
    by (simp only: length_remdups_card_conv)
  have n: "length (filter (\<lambda>r. ?nb (r Col_testReportNumber)) rows)
             = size (filter_mset (\<lambda>r. ?nb (r Col_testReportNumber)) (mset rows))"
    by (simp flip: mset_filter)
  have d: "Col_tacId \<in> set schema_columns" "Col_testReportNumber \<in> set schema_columns"
    by (rule in_schema_columns)+
  have "stats (reports_db rows) =
     Inr \<lparr>tacIssued = int (length (remdups ?vals)),
          testReportIssued = int (length (filter (\<lambda>r. ?nb (r Col_testReportNumber)) rows))\<rparr>"
    by (simp add: stats_def reports_db_def d where_non_blank)
  moreover have "stats (reports_db []) = Inr \<lparr>tacIssued = 0, testReportIssued = 0\<rparr>"
    by (simp add: stats_def reports_db_def d)
  ultimately show ?thesis
    by (simp only: t n)
qed

theorem stats_counts_witness:
  "stats (reports_db stats_rows) = Inr \<lparr>tacIssued = 1, testReportIssued = 1\<rparr>
   \<and> card {v \<in> (\<lambda>r. r Col_tacId) ` set stats_rows. non_blank is_blank_space v} = 1
   \<and> size (filter_mset (\<lambda>r. non_blank is_blank_space (r Col_testReportNumber))
              (mset stats_rows)) = 1
   \<and> stats (reports_db stats_rows_spaces) = Inr \<lparr>tacIssued = 2, testReportIssued = 2\<rparr>
   \<and> card {v \<in> (\<lambda>r. r Col_tacId) ` set stats_rows_spaces. non_blank is_blank_space v} = 2
   \<and> size (filter_mset (\<lambda>r. non_blank is_blank_space (r Col_testReportNumber))
              (mset stats_rows_spaces)) = 2
   \<and> non_blank is_blank_space (SText [32, 32]) = False
   \<and> non_blank is_blank_space (SText [32, 65, 32])
   \<and> non_blank is_blank_space (SText []) = False
   \<and> non_blank is_blank_space SNull = False"
proof -
  have e: "stats (reports_db stats_rows) = Inr \<lparr>tacIssued = 1, testReportIssued = 1\<rparr>"
    by (simp add: stats_def reports_db_def schema_columns_def stats_rows_def null_row_def
        sql_is_not_null_def sql_ne_def sql_trim_def sql_trim_text_def)
  have e': "stats (reports_db stats_rows_spaces) = Inr \<lparr>tacIssued = 2, testReportIssued = 2\<rparr>"
    by (simp add: stats_def reports_db_def schema_columns_def stats_rows_spaces_def null_row_def
        sql_is_not_null_def sql_ne_def sql_trim_def sql_trim_text_def)
  from stats_counts [of stats_rows] e
  have c: "card {v \<in> (\<lambda>r. r Col_tacId) ` set stats_rows. non_blank is_blank_space v} = 1"
    and s: "size (filter_mset (\<lambda>r. non_blank is_blank_space (r Col_testReportNumber))
              (mset stats_rows)) = 1"
    by simp_all
  from stats_counts [of stats_rows_spaces] e'
  have c': "card {v \<in> (\<lambda>r. r Col_tacId) ` set stats_rows_spaces. non_blank is_blank_space v} = 2"
    and s': "size (filter_mset (\<lambda>r. non_blank is_blank_space (r Col_testReportNumber))
              (mset stats_rows_spaces)) = 2"
    by simp_all
  have n1: "non_blank is_blank_space (SText [32, 32]) = False"
    by (simp add: non_blank_def is_blank_space_def)
  have n2: "non_blank is_blank_space (SText [32, 65, 32])"
    by (simp add: non_blank_def is_blank_space_def)
  have n3: "non_blank is_blank_space (SText []) = False"
    by (simp add: non_blank_def is_blank_space_def)
  have n4: "non_blank is_blank_space SNull = False"
    by (simp add: non_blank_def)
  from e c s e' c' s' n1 n2 n3 n4 show ?thesis by (intro conjI)
qed

theorem stats_whitespace_counterexample:
  "row_tab Col_tacId = SText [9]
   \<and> row_tab Col_testReportNumber = SText [9]
   \<and> strip [9] = []
   \<and> non_blank is_space (SText [9]) = False
   \<and> stats (reports_db [row_tab]) = Inr \<lparr>tacIssued = 1, testReportIssued = 1\<rparr>"
proof -
  have a: "row_tab Col_tacId = SText [9]" by (simp add: row_tab_def)
  have b: "row_tab Col_testReportNumber = SText [9]" by (simp add: row_tab_def)
  have c: "strip [9] = []" by (simp add: strip_def is_space_def)
  have d: "non_blank is_space (SText [9]) = False" by (simp add: non_blank_def is_space_def)
  have e: "stats (reports_db [row_tab]) = Inr \<lparr>tacIssued = 1, testReportIssued = 1\<rparr>"
    by (simp add: stats_def reports_db_def schema_columns_def row_tab_def null_row_def
        sql_is_not_null_def sql_ne_def sql_trim_def sql_trim_text_def)
  from a b c d e show ?thesis by (intro conjI)
qed

section \<open>Round trip of insert and query\<close>

lemma typed_roundtrip:
  assumes "typed_payload p" and "bindable p"
  shows "to_json (stored_row num p c) = py_get p (col_name c)"
proof -
  have t: "case py_get p (col_name c) of
             JNull \<Rightarrow> True
           | JStr s \<Rightarrow> col_affinity c = TEXT
           | JInt n \<Rightarrow> col_affinity c = INTEGER
           | _ \<Rightarrow> False"
    using assms(1) in_schema_columns [of c] by (simp add: typed_payload_def list_all_iff)
  have b: "bindable_value (py_get p (col_name c))"
    using assms(2) in_schema_columns [of c] by (simp add: bindable_def list_all_iff)
  show ?thesis
  proof (cases "py_get p (col_name c)")
    case JNull
    then show ?thesis by (simp add: stored_row_def bound_def)
  next
    case (JInt n)
    with b t show ?thesis by (simp add: stored_row_def bound_def)
  next
    case (JStr s)
    with b t show ?thesis by (simp add: stored_row_def bound_def)
  qed (use t in simp_all)
qed

text \<open>
  Claim C5, as amended. For every payload of the data model (a text or null in each of the 13
  text fields, an integer or null in \<open>createdAt\<close>), after an insert that succeeds a query
  with no filters returns, before and after the insert, and the result after is the result
  before plus exactly one new item, whose 14 fields equal the payload's values, a field absent
  from the payload being null. On the empty table the report with id \<open>R1\<close>, tacId \<open>TAC-9\<close> and
  createdAt 100 comes back as the one item. The claim as stated covers every payload; a value
  of another type is stored as its column's affinity makes it: the number 560001 sent as
  \<open>pincode\<close> comes back as the text \<open>560001\<close>.
\<close>

theorem insert_query_roundtrip:
  assumes "insert_report num p db = (Inr (), db')" and "typed_payload p"
  shows "\<exists>before after new.
           query_reports Map.empty db = Inr before
           \<and> query_reports Map.empty db' = Inr after
           \<and> mset after = add_mset new (mset before)
           \<and> (\<forall>c. to_json (new c) = py_get p (col_name c))"
proof -
  from assms(1) obtain t where d: "db = Some t"
    and c: "list_all (\<lambda>c. c \<in> set (declared t)) schema_columns"
    and d': "db' = Some (t\<lparr>stored := stored t @ [stored_row num p]\<rparr>)"
    and b: "bindable p"
    using insert_report_Inr by blast
  from c have k: "Col_createdAt \<in> set (declared t)"
    by (simp add: schema_columns_def)
  have l: "like_conds Map.empty = []"
    by (simp add: like_conds_def filter_keys_def filter_value_def strip_def)
  have q: "query_reports Map.empty db = Inr (order_by_desc Col_createdAt (stored t))"
    by (simp add: d query_reports_Some l k sql_scan_Nil)
  have q': "query_reports Map.empty db'
              = Inr (order_by_desc Col_createdAt (stored t @ [stored_row num p]))"
    by (simp add: d' query_reports_Some l k sql_scan_Nil)
  have m: "mset (order_by_desc Col_createdAt (stored t @ [stored_row num p]))
             = add_mset (stored_row num p) (mset (order_by_desc Col_createdAt (stored t)))"
    by (simp add: mset_order_by_desc)
  have r: "\<forall>c. to_json (stored_row num p c) = py_get p (col_name c)"
    using typed_roundtrip [OF assms(2) b] by simp
  from q q' m r show ?thesis by blast
qed

theorem insert_query_roundtrip_witness:
  "insert_report SText payload_r1 (reports_db [])
     = (Inr (), reports_db [stored_row SText payload_r1])
   \<and> typed_payload payload_r1
   \<and> query_reports Map.empty (reports_db [stored_row SText payload_r1])
        = Inr [stored_row SText payload_r1]
   \<and> map (\<lambda>c. to_json (stored_row SText payload_r1 c)) schema_columns
        = [JStr (ustr ''R1''), JNull, JNull, JNull, JNull, JNull, JNull, JNull,
           JStr (ustr ''TAC-9''), JNull, JNull, JNull, JNull, JInt 100]
   \<and> (\<exists>before after new.
         query_reports Map.empty (reports_db []) = Inr before
         \<and> query_reports Map.empty (reports_db [stored_row SText payload_r1]) = Inr after
         \<and> mset after = add_mset new (mset before)
         \<and> (\<forall>c. to_json (new c) = py_get payload_r1 (col_name c)))"
proof -
  have b: "bindable payload_r1"
    by (simp add: bindable_def schema_columns_def payload_r1_def py_get_def is_surrogate_def
        ustr_def)
  have i: "insert_report SText payload_r1 (reports_db [])
             = (Inr (), reports_db [stored_row SText payload_r1])"
    by (simp add: insert_report_bindable b pk_conflict_def)
  have t: "typed_payload payload_r1"
    by (simp add: typed_payload_def schema_columns_def payload_r1_def py_get_def)
  have q: "query_reports Map.empty (reports_db [stored_row SText payload_r1])
        = Inr [stored_row SText payload_r1]"
    by (simp add: query_reports_no_filters)
  have v: "map (\<lambda>c. to_json (stored_row SText payload_r1 c)) schema_columns
        = [JStr (ustr ''R1''), JNull, JNull, JNull, JNull, JNull, JNull, JNull,
           JStr (ustr ''TAC-9''), JNull, JNull, JNull, JNull, JInt 100]"
    by (simp add: schema_columns_def stored_row_def bound_def payload_r1_def py_get_def
        is_surrogate_def ustr_def)
  note e = insert_query_roundtrip [OF i t]
  from i t q v e show ?thesis by (intro conjI)
qed

theorem insert_query_roundtrip_counterexample:
  "insert_report SText payload_pincode (reports_db [])
     = (Inr (), reports_db [stored_row SText payload_pincode])
   \<and> query_reports Map.empty (reports_db [stored_row SText payload_pincode])
        = Inr [stored_row SText payload_pincode]
   \<and> py_get payload_pincode ''pincode'' = JInt 560001
   \<and> to_json (stored_row SText payload_pincode Col_pincode) = JStr [53, 54, 48, 48, 48, 49]"
proof -
  have b: "bindable payload_pincode"
    by (simp add: bindable_def schema_columns_def payload_pincode_def py_get_def
        is_surrogate_def ustr_def)
  have i: "insert_report SText payload_pincode (reports_db [])
             = (Inr (), reports_db [stored_row SText payload_pincode])"
    by (simp add: insert_report_bindable b pk_conflict_def)
  have q: "query_reports Map.empty (reports_db [stored_row SText payload_pincode])
        = Inr [stored_row SText payload_pincode]"
    by (simp add: query_reports_no_filters)
  have g: "py_get payload_pincode ''pincode'' = JInt 560001"
    by (simp add: payload_pincode_def py_get_def)
  have s: "to_json (stored_row SText payload_pincode Col_pincode) = JStr [53, 54, 48, 48, 48, 49]"
    by (simp add: stored_row_def bound_def g show_int_def show_nat.simps)
  from i q g s show ?thesis by (intro conjI)
qed

section \<open>Frame of an insert\<close>

lemma filter_snoc: "filter P (xs @ [x]) = filter P xs @ (if P x then [x] else [])"
  by simp

lemma query_reports_grown:
  assumes b: "query_reports fs (Some t) = Inr before"
  shows "(before \<noteq> [] \<longrightarrow>
            (\<exists>after. query_reports fs (Some (t\<lparr>stored := stored t @ [new]\<rparr>)) = Inr after))
         \<and> (\<forall>after. query_reports fs (Some (t\<lparr>stored := stored t @ [new]\<rparr>)) = Inr after \<longrightarrow>
               mset before \<subseteq># mset after \<and> mset after \<subseteq># add_mset new (mset before))"
proof (intro conjI impI allI)
  let ?P = "\<lambda>r. list_all (cond_holds r) (like_conds fs)"
  let ?t' = "t\<lparr>stored := stored t @ [new]\<rparr>"
  from b have before: "before = order_by_desc Col_createdAt (filter ?P (stored t))"
    using query_reports_Inr [of fs "Some t" before] by simp
  {
    assume ne: "before \<noteq> []"
    from b obtain out where d: "list_all (\<lambda>c. c \<in> set (declared t)) (map fst (like_conds fs) @ [Col_createdAt])"
      and v: "\<exists>vals. bind_params (map JStr (map snd (like_conds fs))) = Inr vals"
      and o: "sql_scan (like_conds fs) (stored t) = Inr out"
      and r: "before = order_by_desc Col_createdAt out"
      by (auto simp: query_reports_Some split: if_splits sum.splits)
    from ne r have "out \<noteq> []" by auto
    with o have "list_all (\<lambda>cp. utf8_length (snd cp) \<le> 50000) (like_conds fs)"
      by (rule sql_scan_kept_short)
    then obtain out' where "sql_scan (like_conds fs) (stored t @ [new]) = Inr out'"
      using sql_scan_short by blast
    with d v show "\<exists>after. query_reports fs (Some ?t') = Inr after"
      by (auto simp: query_reports_Some)
  }
  fix after
  assume "query_reports fs (Some ?t') = Inr after"
  then have "after = order_by_desc Col_createdAt (filter ?P (stored ?t'))"
    using query_reports_Inr [of fs "Some ?t'" after] by simp
  then have m: "mset after = mset (filter ?P (stored t)) + mset (if ?P new then [new] else [])"
    by (simp add: mset_order_by_desc)
  from before have m0: "mset before = mset (filter ?P (stored t))"
    by (simp only: mset_order_by_desc)
  show "mset before \<subseteq># mset after"
    by (simp only: m m0 mset_subset_eq_add_left)
  show "mset after \<subseteq># add_mset new (mset before)"
    unfolding m m0 by (cases "?P new") simp_all
qed

text \<open>
  Claim C10: a successful insert leaves the rows stored before as they are. The insert adds one
  row at the end of the table. For every filter mapping for which \<open>query_reports\<close> returned a
  list before the insert: if that list is not empty, the query returns after the insert too;
  and whenever it returns after the insert, every row it returned before is returned again,
  unchanged, and the only row the result can gain is the row just inserted.
\<close>

theorem insert_report_frame:
  assumes "insert_report num p db = (Inr (), db')"
  shows "\<exists>t new.
           db = Some t \<and> db' = Some (t\<lparr>stored := stored t @ [new]\<rparr>)
           \<and> (\<forall>before. query_reports fs db = Inr before \<longrightarrow>
                 (before \<noteq> [] \<longrightarrow> (\<exists>after. query_reports fs db' = Inr after))
                 \<and> (\<forall>after. query_reports fs db' = Inr after \<longrightarrow>
                       mset before \<subseteq># mset after
                       \<and> mset after \<subseteq># add_mset new (mset before)))"
proof -
  from assms obtain t where d: "db = Some t"
    and d': "db' = Some (t\<lparr>stored := stored t @ [stored_row num p]\<rparr>)"
    using insert_report_Inr by blast
  show ?thesis
    unfolding d d' using query_reports_grown [of fs t _ "stored_row num p"] by blast
qed

theorem insert_report_frame_witness:
  "insert_report SText payload_match (reports_db [row_abc, row_xyz])
     = (Inr (), reports_db [row_abc, row_xyz, stored_row SText payload_match])
   \<and> query_reports filters_bc1 (reports_db [row_abc, row_xyz]) = Inr [row_abc]
   \<and> query_reports filters_bc1 (reports_db [row_abc, row_xyz, stored_row SText payload_match])
       = Inr [stored_row SText payload_match, row_abc]
   \<and> mset [row_abc] \<subseteq># mset [stored_row SText payload_match, row_abc]
   \<and> mset [stored_row SText payload_match, row_abc]
       \<subseteq># add_mset (stored_row SText payload_match) (mset [row_abc])"
proof -
  let ?new = "stored_row SText payload_match"
  have b: "bindable payload_match"
    by (simp add: bindable_def schema_columns_def payload_match_def py_get_def is_surrogate_def
        ustr_def)
  have n: "?new = null_row(Col_id := SText [109], Col_tacId := SText [120, 98, 99, 49],
                     Col_createdAt := SInt 10)"
  proof (rule ext)
    fix c
    show "?new c = (null_row(Col_id := SText [109], Col_tacId := SText [120, 98, 99, 49],
                     Col_createdAt := SInt 10)) c"
      by (cases c)
         (simp_all add: stored_row_def bound_def payload_match_def py_get_def null_row_def
            is_surrogate_def)
  qed
  have i: "insert_report SText payload_match (reports_db [row_abc, row_xyz])
             = (Inr (), reports_db [row_abc, row_xyz, ?new])"
    by (simp add: insert_report_bindable b pk_conflict_def n row_abc_def row_xyz_def)
  have q1: "query_reports filters_bc1 (reports_db [row_abc, row_xyz]) = Inr [row_abc]"
    by (simp add: query_reports_db like_conds_bc1 sql_like_def c_str_def lower_ascii_def
        row_abc_def row_xyz_def null_row_def is_surrogate_def)
  have q2: "query_reports filters_bc1 (reports_db [row_abc, row_xyz, ?new]) = Inr [?new, row_abc]"
    unfolding n
    by (simp add: query_reports_db like_conds_bc1 sql_like_def c_str_def lower_ascii_def
        row_abc_def row_xyz_def null_row_def is_surrogate_def)
  from insert_report_frame [OF i, of filters_bc1]
  obtain t new where t: "reports_db [row_abc, row_xyz] = Some t"
    and t': "reports_db [row_abc, row_xyz, ?new] = Some (t\<lparr>stored := stored t @ [new]\<rparr>)"
    and f: "\<forall>before. query_reports filters_bc1 (reports_db [row_abc, row_xyz]) = Inr before \<longrightarrow>
              (before \<noteq> [] \<longrightarrow>
                 (\<exists>after. query_reports filters_bc1 (reports_db [row_abc, row_xyz, ?new])
                            = Inr after))
              \<and> (\<forall>after. query_reports filters_bc1 (reports_db [row_abc, row_xyz, ?new])
                            = Inr after \<longrightarrow>
                    mset before \<subseteq># mset after \<and> mset after \<subseteq># add_mset new (mset before))"
    by blast
  from t t' have "new = ?new" by (auto simp: reports_db_def)
  with f q1 q2 have "mset [row_abc] \<subseteq># mset [?new, row_abc]"
    and "mset [?new, row_abc] \<subseteq># add_mset ?new (mset [row_abc])"
    by blast+
  with i q1 q2 show ?thesis by blast
qed

section \<open>The primary key\<close>

lemma show_int_1: "show_int 1 = [49]"
  by (simp add: show_int_def show_nat.simps)

lemma show_int_0: "show_int 0 = [48]"
  by (simp add: show_int_def show_nat.simps)

lemma stored_id_of_text:
  assumes "id_text (py_get p ''id'') = Some s" and "bindable p"
  shows "stored_row num p Col_id = SText s"
proof -
  have b: "bindable_value (py_get p ''id'')"
    using assms(2) by (simp add: bindable_def schema_columns_def)
  show ?thesis
  proof (cases "py_get p ''id''")
    case (JBool x)
    with assms(1) show ?thesis
      by (cases x) (simp_all add: stored_row_def bound_def show_int_1 show_int_0)
  next
    case (JInt n)
    with assms(1) b show ?thesis by (simp add: stored_row_def bound_def)
  next
    case (JStr t)
    with assms(1) b show ?thesis by (simp add: stored_row_def bound_def)
  qed (use assms(1) in simp_all)
qed

text \<open>
  Claim C4, as amended. The \<open>id\<close> column has TEXT affinity, so a stored id is a text. For every
  stored row with an id and every second insert whose payload carries the same id (as that
  text, as an integer whose decimal text it is, or as a boolean, which is stored as \<open>1\<close> or
  \<open>0\<close>), the insert fails and leaves the table unchanged: the first row stays as it was and no
  row is added. The failure is the uniqueness violation whenever each of the 14 values of the
  payload is null, a boolean, an integer of the signed 64-bit range, or a text without
  surrogate code points. The claim as stated names the uniqueness violation for every such
  payload; a payload with a value that the driver cannot bind fails before the statement
  runs, with the driver's error.
\<close>

theorem duplicate_id_rejected:
  assumes "r \<in> set rows" and "r Col_id = SText s" and "id_text (py_get p ''id'') = Some s"
  shows "\<exists>e. insert_report num p (reports_db rows) = (Inl e, reports_db rows)
              \<and> (bindable p \<longrightarrow> e = IntegrityError)"
proof (cases "bindable p")
  case True
  have "r Col_id \<in> (\<lambda>x. x Col_id) ` set rows"
    using assms(1) by (rule imageI)
  then have "pk_conflict (stored_row num p) rows"
    using assms(2) stored_id_of_text [OF assms(3) True, of num] by (simp add: pk_conflict_def)
  with True show ?thesis by (simp add: insert_report_bindable)
next
  case False
  then obtain e where "bind_params (payload_params p) = Inl e"
    using not_bindable_bind_params by blast
  with False show ?thesis by (simp add: insert_report_db)
qed

theorem duplicate_id_rejected_witness:
  "row_abc \<in> set [row_abc, row_five] \<and> row_abc Col_id = SText [114, 49]
   \<and> id_text (py_get payload_dup ''id'') = Some [114, 49]
   \<and> bindable payload_dup
   \<and> insert_report SText payload_dup (reports_db [row_abc, row_five])
        = (Inl IntegrityError, reports_db [row_abc, row_five])
   \<and> row_five \<in> set [row_abc, row_five] \<and> row_five Col_id = SText [53]
   \<and> id_text (py_get payload_five ''id'') = Some [53]
   \<and> bindable payload_five
   \<and> insert_report SText payload_five (reports_db [row_abc, row_five])
        = (Inl IntegrityError, reports_db [row_abc, row_five])"
proof -
  have a: "row_abc \<in> set [row_abc, row_five]" by simp
  have b: "row_abc Col_id = SText [114, 49]" by (simp add: row_abc_def)
  have c: "id_text (py_get payload_dup ''id'') = Some [114, 49]"
    by (simp add: py_get_def payload_dup_def)
  have d: "bindable payload_dup"
    by (simp add: bindable_def schema_columns_def py_get_def payload_dup_def is_surrogate_def)
  from duplicate_id_rejected [OF a b c, of SText] d
  have e: "insert_report SText payload_dup (reports_db [row_abc, row_five])
        = (Inl IntegrityError, reports_db [row_abc, row_five])" by blast
  have a': "row_five \<in> set [row_abc, row_five]" by simp
  have b': "row_five Col_id = SText [53]" by (simp add: row_five_def)
  have c': "id_text (py_get payload_five ''id'') = Some [53]"
    by (simp add: py_get_def payload_five_def show_int_def show_nat.simps)
  have d': "bindable payload_five"
    by (simp add: bindable_def schema_columns_def py_get_def payload_five_def)
  from duplicate_id_rejected [OF a' b' c', of SText] d'
  have e': "insert_report SText payload_five (reports_db [row_abc, row_five])
        = (Inl IntegrityError, reports_db [row_abc, row_five])" by blast
  from a b c d e a' b' c' d' e' show ?thesis by (intro conjI)
qed

theorem duplicate_id_rejected_counterexample:
  "row_abc Col_id = SText [114, 49]
   \<and> py_get payload_r1_list ''id'' = JStr [114, 49]
   \<and> insert_report SText payload_r1_list (reports_db [row_abc])
       = (Inl BindingError, reports_db [row_abc])"
proof -
  have a: "row_abc Col_id = SText [114, 49]" by (simp add: row_abc_def)
  have b: "py_get payload_r1_list ''id'' = JStr [114, 49]"
    by (simp add: py_get_def payload_r1_list_def)
  have c: "insert_report SText payload_r1_list (reports_db [row_abc])
       = (Inl BindingError, reports_db [row_abc])"
    by (simp add: insert_report_db payload_params_def schema_columns_def payload_r1_list_def
        py_get_def is_surrogate_def)
  from a b c show ?thesis by (intro conjI)
qed

section \<open>NULL ids\<close>

lemma bind_param_error: "bind_param v = Inl e \<Longrightarrow> e \<noteq> IntegrityError"
  by (cases v) (auto split: if_splits)

lemma bind_params_error: "bind_params vs = Inl e \<Longrightarrow> e \<noteq> IntegrityError"
proof (induction vs)
  case Nil
  then show ?case by simp
next
  case (Cons v vs)
  show ?case
  proof (cases "bind_param v")
    case (Inl e')
    with Cons.prems have "e' = e" by simp
    with Inl show ?thesis using bind_param_error by blast
  next
    case (Inr x)
    with Cons.prems have "bind_params vs = Inl e"
      by (cases "bind_params vs") simp_all
    then show ?thesis by (rule Cons.IH)
  qed
qed

text \<open>
  Claim C8, as amended. Uniqueness of the primary key is not enforced for NULL ids: for every
  state of the table, an insert whose payload has no id never fails with the uniqueness
  violation, and it succeeds, whatever rows with a NULL id the table already has, whenever
  each of the 14 values of the payload is null, a boolean, an integer of the signed 64-bit
  range, or a text without surrogate code points; the row it adds has a NULL id, and the same
  insert repeated adds a second such row. The claim as stated has every such insert succeed;
  a payload with a value that the driver cannot bind fails with the driver's error.
\<close>

theorem null_id_not_unique:
  assumes "py_get p ''id'' = JNull"
  shows "fst (insert_report num p (reports_db rows)) \<noteq> Inl IntegrityError
         \<and> (bindable p \<longrightarrow>
              (\<exists>new. new Col_id = SNull
                 \<and> insert_report num p (reports_db rows) = (Inr (), reports_db (rows @ [new]))
                 \<and> insert_report num p (reports_db (rows @ [new]))
                     = (Inr (), reports_db (rows @ [new, new]))))"
proof -
  have n: "\<not> pk_conflict (stored_row num p) rs" for rs
    using assms by (simp add: pk_conflict_def stored_id_null)
  have e: "fst (insert_report num p (reports_db rows)) \<noteq> Inl IntegrityError"
  proof (cases "bind_params (payload_params p)")
    case (Inl e')
    then have "e' \<noteq> IntegrityError" by (rule bind_params_error)
    with Inl show ?thesis by (simp add: insert_report_db)
  next
    case (Inr vals)
    then show ?thesis by (simp add: insert_report_db n)
  qed
  have s: "insert_report num p (reports_db rs) = (Inr (), reports_db (rs @ [stored_row num p]))"
    if "bindable p" for rs
    using that by (simp add: insert_report_bindable n)
  have i: "stored_row num p Col_id = SNull" using assms by (rule stored_id_null)
  show ?thesis
  proof (intro conjI impI)
    show "fst (insert_report num p (reports_db rows)) \<noteq> Inl IntegrityError" by (rule e)
  next
    assume b: "bindable p"
    have "insert_report num p (reports_db (rows @ [stored_row num p]))
            = (Inr (), reports_db (rows @ [stored_row num p, stored_row num p]))"
      using s [OF b, of "rows @ [stored_row num p]"] by simp
    with i s [OF b, of rows]
    show "\<exists>new. new Col_id = SNull
                 \<and> insert_report num p (reports_db rows) = (Inr (), reports_db (rows @ [new]))
                 \<and> insert_report num p (reports_db (rows @ [new]))
                     = (Inr (), reports_db (rows @ [new, new]))"
      by blast
  qed
qed

theorem null_id_not_unique_witness:
  "py_get payload_user ''id'' = JNull \<and> bindable payload_user
   \<and> fst (insert_report SText payload_user (reports_db [null_row])) \<noteq> Inl IntegrityError
   \<and> (\<exists>new. new Col_id = SNull
         \<and> insert_report SText payload_user (reports_db [null_row])
             = (Inr (), reports_db [null_row, new])
         \<and> insert_report SText payload_user (reports_db [null_row, new])
             = (Inr (), reports_db [null_row, new, new]))"
proof -
  have a: "py_get payload_user ''id'' = JNull" by (simp add: py_get_def payload_user_def)
  have b: "bindable payload_user"
    by (simp add: bindable_def schema_columns_def py_get_def payload_user_def is_surrogate_def)
  note t = null_id_not_unique [OF a, of SText "[null_row]"]
  from t have c: "fst (insert_report SText payload_user (reports_db [null_row]))
                    \<noteq> Inl IntegrityError"
    by blast
  from t b have "\<exists>new. new Col_id = SNull
         \<and> insert_report SText payload_user (reports_db [null_row])
             = (Inr (), reports_db ([null_row] @ [new]))
         \<and> insert_report SText payload_user (reports_db ([null_row] @ [new]))
             = (Inr (), reports_db ([null_row] @ [new, new]))"
    by blast
  then have d: "\<exists>new. new Col_id = SNull
         \<and> insert_report SText payload_user (reports_db [null_row])
             = (Inr (), reports_db [null_row, new])
         \<and> insert_report SText payload_user (reports_db [null_row, new])
             = (Inr (), reports_db [null_row, new, new])"
    by simp
  from a b c d show ?thesis by (intro conjI)
qed

theorem null_id_not_unique_counterexample:
  "py_get payload_list ''id'' = JNull
   \<and> null_row Col_id = SNull
   \<and> insert_report SText payload_list (reports_db [null_row])
       = (Inl BindingError, reports_db [null_row])"
proof -
  have a: "py_get payload_list ''id'' = JNull" by (simp add: py_get_def payload_list_def)
  have b: "null_row Col_id = SNull" by (simp add: null_row_def)
  have c: "insert_report SText payload_list (reports_db [null_row])
       = (Inl BindingError, reports_db [null_row])"
    by (simp add: insert_report_db payload_params_def schema_columns_def payload_list_def
        py_get_def)
  from a b c show ?thesis by (intro conjI)
qed

section \<open>POST with an empty body\<close>

lemma stored_row_empty: "stored_row num (dict_of []) = (\<lambda>c. SNull)"
proof
  fix c
  show "stored_row num (dict_of []) c = SNull"
    by (cases "col_affinity c")
       (simp_all add: stored_row_def dict_of_def py_get_def bound_def)
qed

lemma bindable_empty: "bindable (dict_of [])"
  by (simp add: bindable_def dict_of_def py_get_def list_all_iff)

lemma py_int_0: "py_int ''0'' = Inr 0"
  by (simp add: py_int_def int_space_def c_isspace_def digit_value_def)

lemma py_int_2: "py_int ''2'' = Inr 2"
  by (simp add: py_int_def int_space_def c_isspace_def digit_value_def)

lemma py_int_spaces: "py_int [CHR 0xA0, CHR ''7'', CHR 0x0A] = Inr 7"
  by (simp add: py_int_def int_space_def c_isspace_def digit_value_def)

lemma py_int_separator: "py_int [CHR 0x1C, CHR ''0''] = Inl ValueError"
  by (simp add: py_int_def int_space_def c_isspace_def digit_value_def)

lemma py_int_underscore: "py_int ''1_0'' = Inr 10 \<and> py_int ''1__0'' = Inl ValueError"
  by (simp add: py_int_def int_space_def c_isspace_def digit_value_def)

lemma py_int_sign: "py_int ''-12'' = Inr (- 12) \<and> py_int ''+'' = Inl ValueError"
  by (simp add: py_int_def int_space_def c_isspace_def digit_value_def)

lemma insert_empty:
  "insert_report num (dict_of []) (reports_db rows)
     = (Inr (), reports_db (rows @ [\<lambda>c. SNull]))"
  by (simp add: insert_report_bindable bindable_empty stored_row_empty pk_conflict_def)

text \<open>
  Claim C7: a POST to \<open>/api/reports\<close> whose \<open>Content-Length\<close> is 0 or absent is handled as if
  its body were the empty JSON object: one row with all 14 fields NULL is added to the table,
  and the response has status 201, the CORS headers and the content type of JSON, and the
  body \<open>{"ok": true}\<close>. The insert cannot fail on the id, since a NULL id conflicts with no
  row. The outcome is that of the same request sent with the body \<open>{}\<close> and the length 2. Of
  \<open>json.loads\<close> the theorem uses that it reads the text \<open>{}\<close> as the empty object.
\<close>

theorem do_POST_empty_body:
  assumes "path req = ''/api/reports''"
    and "content_length req = None \<or> content_length req = Some ''0''"
    and "loads ''{}'' = Inr (JObj [])"
  shows "do_POST loads num req (reports_db rows)
           = (Inr \<lparr>status = 201,
                   headers = [(''Access-Control-Allow-Origin'', ''*''),
                              (''Access-Control-Allow-Methods'', ''GET, POST, OPTIONS''),
                              (''Access-Control-Allow-Headers'', ''Content-Type''),
                              (''Content-Type'', ''application/json'')],
                   content = JsonBody (JObj [([111, 107], JBool True)])\<rparr>,
              reports_db (rows @ [\<lambda>c. SNull]))
         \<and> do_POST loads num req (reports_db rows)
           = do_POST loads num (req\<lparr>content_length := Some ''2'', rfile := ''{}''\<rparr>)
               (reports_db rows)"
proof -
  have l: "py_int (case content_length req of None \<Rightarrow> ''0'' | Some v \<Rightarrow> v) = Inr 0"
    using assms(2) py_int_0 by auto
  have r: "json_response 201 (JObj [(ustr ''ok'', JBool True)])
             = \<lparr>status = 201,
                   headers = [(''Access-Control-Allow-Origin'', ''*''),
                              (''Access-Control-Allow-Methods'', ''GET, POST, OPTIONS''),
                              (''Access-Control-Allow-Headers'', ''Content-Type''),
                              (''Content-Type'', ''application/json'')],
                   content = JsonBody (JObj [([111, 107], JBool True)])\<rparr>"
    by (simp add: json_response_def cors_def ustr_def)
  have a: "do_POST loads num req (reports_db rows)
           = (Inr (json_response 201 (JObj [(ustr ''ok'', JBool True)])),
              reports_db (rows @ [\<lambda>c. SNull]))"
    using assms(1,3) by (simp add: do_POST_def l insert_empty)
  have b: "do_POST loads num (req\<lparr>content_length := Some ''2'', rfile := ''{}''\<rparr>)
             (reports_db rows)
           = (Inr (json_response 201 (JObj [(ustr ''ok'', JBool True)])),
              reports_db (rows @ [\<lambda>c. SNull]))"
    using assms(1,3) by (simp add: do_POST_def py_int_2 insert_empty)
  from a b show ?thesis by (simp only: r)
qed

theorem do_POST_empty_body_witness:
  "path post_empty = ''/api/reports''
   \<and> content_length post_empty = None
   \<and> content_length post_zero = Some ''0''
   \<and> loads_empty_object ''{}'' = Inr (JObj [])
   \<and> do_POST loads_empty_object SText post_empty (reports_db [null_row])
        = (Inr \<lparr>status = 201,
                headers = [(''Access-Control-Allow-Origin'', ''*''),
                           (''Access-Control-Allow-Methods'', ''GET, POST, OPTIONS''),
                           (''Access-Control-Allow-Headers'', ''Content-Type''),
                           (''Content-Type'', ''application/json'')],
                content = JsonBody (JObj [([111, 107], JBool True)])\<rparr>,
           reports_db [null_row, \<lambda>c. SNull])
   \<and> do_POST loads_empty_object SText post_zero (reports_db [])
        = (Inr \<lparr>status = 201,
                headers = [(''Access-Control-Allow-Origin'', ''*''),
                           (''Access-Control-Allow-Methods'', ''GET, POST, OPTIONS''),
                           (''Access-Control-Allow-Headers'', ''Content-Type''),
                           (''Content-Type'', ''application/json'')],
                content = JsonBody (JObj [([111, 107], JBool True)])\<rparr>,
           reports_db [\<lambda>c. SNull])"
proof -
  have a: "path post_empty = ''/api/reports''" by (simp add: post_empty_def)
  have b: "content_length post_empty = None \<or> content_length post_empty = Some ''0''"
    by (simp add: post_empty_def)
  have n: "content_length post_empty = None" by (simp add: post_empty_def)
  have a': "path post_zero = ''/api/reports''" by (simp add: post_zero_def)
  have b': "content_length post_zero = None \<or> content_length post_zero = Some ''0''"
    by (simp add: post_zero_def)
  have z: "content_length post_zero = Some ''0''" by (simp add: post_zero_def)
  have c: "loads_empty_object ''{}'' = Inr (JObj [])" by (simp add: loads_empty_object_def)
  from do_POST_empty_body
         [where req = post_empty and loads = loads_empty_object and num = SText
            and rows = "[null_row]"]
       a b c
  have d: "do_POST loads_empty_object SText post_empty (reports_db [null_row])
        = (Inr \<lparr>status = 201,
                headers = [(''Access-Control-Allow-Origin'', ''*''),
                           (''Access-Control-Allow-Methods'', ''GET, POST, OPTIONS''),
                           (''Access-Control-Allow-Headers'', ''Content-Type''),
                           (''Content-Type'', ''application/json'')],
                content = JsonBody (JObj [([111, 107], JBool True)])\<rparr>,
           reports_db [null_row, \<lambda>c. SNull])"
    by simp
  from do_POST_empty_body
         [where req = post_zero and loads = loads_empty_object and num = SText
            and rows = "[]"]
       a' b' c
  have d': "do_POST loads_empty_object SText post_zero (reports_db [])
        = (Inr \<lparr>status = 201,
                headers = [(''Access-Control-Allow-Origin'', ''*''),
                           (''Access-Control-Allow-Methods'', ''GET, POST, OPTIONS''),
                           (''Access-Control-Allow-Headers'', ''Content-Type''),
                           (''Content-Type'', ''application/json'')],
                content = JsonBody (JObj [([111, 107], JBool True)])\<rparr>,
           reports_db [\<lambda>c. SNull])"
    by simp
  from a n z c d d' show ?thesis by (intro conjI)
qed

section \<open>The query string of GET /api/reports\<close>

lemma parse_qsl_loop_segments:
  "parse_qsl_loop unquote xs =
     map (\<lambda>(n, v). (unquote (plus_to_space n), unquote (plus_to_space v)))
       (filter (\<lambda>(n, v). v \<noteq> []) (map partition_eq xs))"
proof (induction xs)
  case Nil
  then show ?case by simp
next
  case (Cons x xs)
  have "snd (partition_eq x) \<noteq> [] \<Longrightarrow> x \<noteq> []"
    by (auto simp: partition_eq_def)
  with Cons show ?case
    by (cases "partition_eq x") auto
qed

lemma parse_qs_loop_lookup:
  "parse_qs_loop ps d k =
     (case map snd (filter (\<lambda>p. fst p = k) ps) of
        [] \<Rightarrow> d k
      | v # vs \<Rightarrow> Some ((case d k of None \<Rightarrow> [] | Some ws \<Rightarrow> ws) @ v # vs))"
proof (induction ps arbitrary: d)
  case Nil
  then show ?case by simp
next
  case (Cons p ps)
  obtain n v where p: "p = (n, v)" by (cases p)
  show ?case
    unfolding p parse_qs_loop.simps Cons.IH
    by (auto split: list.splits option.splits)
qed

lemma qs_first_parse_qs_loop:
  "qs_first (parse_qs_loop ps Map.empty) k =
     Inr (case find (\<lambda>p. fst p = ustr k) ps of None \<Rightarrow> [] | Some p \<Rightarrow> snd p)"
proof -
  have "(case map snd (filter (\<lambda>p. fst p = ustr k) ps) of [] \<Rightarrow> [] | v # vs \<Rightarrow> v)
          = (case find (\<lambda>p. fst p = ustr k) ps of None \<Rightarrow> [] | Some p \<Rightarrow> snd p)"
    by (induction ps) auto
  then show ?thesis
    by (auto simp: qs_first_def parse_qs_loop_lookup split: list.splits)
qed

lemma find_decoded:
  "find (\<lambda>p. fst p = k)
     (map (\<lambda>(n, v). (f n, f v)) (filter (\<lambda>(n, v). v \<noteq> []) xs))
   = map_option (\<lambda>(n, v). (f n, f v)) (find (\<lambda>(n, v). v \<noteq> [] \<and> f n = k) xs)"
  by (induction xs) auto

lemma qs_first_parse_qs:
  "qs_first (parse_qs unquote q) k = Inr (first_nonblank_occurrence unquote q k)"
  unfolding parse_qs_def parse_qsl_def qs_first_parse_qs_loop parse_qsl_loop_segments
    find_decoded first_nonblank_occurrence_def qs_segments_def
  by (auto split: option.splits)

lemma build_filters_cong:
  "list_all (\<lambda>k. qs_first d1 k = qs_first d2 k) ks \<Longrightarrow> build_filters d1 ks = build_filters d2 ks"
proof (induction ks)
  case Nil
  then show ?case by simp
next
  case (Cons k ks)
  then have "qs_first d1 k = qs_first d2 k" and "build_filters d1 ks = build_filters d2 ks"
    by simp_all
  then show ?case by (simp only: build_filters.simps)
qed

text \<open>
  Claim C9, as amended. Two requests \<open>GET /api/reports\<close> whose query strings agree, for each
  of the four keys, on the first occurrence of the key that has a non-empty value (the empty
  text when there is none) get the same response on the same table: other parameters and
  later occurrences with a non-empty value have no effect. The claim as stated takes the first
  occurrence of a key whatever its value; \<open>parse_qs\<close> drops the occurrences whose value is
  empty, so in \<open>tacId=&tacId=XYZ\<close> the second occurrence is the filter, and the response
  differs from that of \<open>tacId=\<close>.
\<close>

theorem do_GET_query_noninterference:
  assumes "path r1 = ''/api/reports''" and "path r2 = ''/api/reports''"
    and "list_all (\<lambda>(c, k). first_nonblank_occurrence unquote (query r1) k
                              = first_nonblank_occurrence unquote (query r2) k) filter_keys"
  shows "do_GET unquote index_html r1 db = do_GET unquote index_html r2 db"
proof -
  have "list_all (\<lambda>k. qs_first (parse_qs unquote (query r1)) k
                        = qs_first (parse_qs unquote (query r2)) k)
          [''tacId'', ''plantInspectionReportNumber'', ''testReportNumber'', ''packModel'']"
    using assms(3) by (simp add: qs_first_parse_qs filter_keys_def)
  then have "build_filters (parse_qs unquote (query r1))
               [''tacId'', ''plantInspectionReportNumber'', ''testReportNumber'', ''packModel'']
             = build_filters (parse_qs unquote (query r2))
               [''tacId'', ''plantInspectionReportNumber'', ''testReportNumber'', ''packModel'']"
    by (rule build_filters_cong)
  then show ?thesis
    using assms(1,2) by (simp add: do_GET_def)
qed

theorem do_GET_query_noninterference_witness:
  "path (get_reports ''tacId=XYZ&x=1&tacId=ABC'') = ''/api/reports''
   \<and> path (get_reports ''tacId=&tacId=XYZ'') = ''/api/reports''
   \<and> list_all (\<lambda>(c, k).
        first_nonblank_occurrence unquote_plain (query (get_reports ''tacId=XYZ&x=1&tacId=ABC'')) k
        = first_nonblank_occurrence unquote_plain (query (get_reports ''tacId=&tacId=XYZ'')) k)
        filter_keys
   \<and> do_GET unquote_plain None (get_reports ''tacId=XYZ&x=1&tacId=ABC'') (reports_db [row_abc])
       = do_GET unquote_plain None (get_reports ''tacId=&tacId=XYZ'') (reports_db [row_abc])"
proof -
  have a: "path (get_reports ''tacId=XYZ&x=1&tacId=ABC'') = ''/api/reports''"
    by (simp add: get_reports_def)
  have b: "path (get_reports ''tacId=&tacId=XYZ'') = ''/api/reports''"
    by (simp add: get_reports_def)
  have c: "list_all (\<lambda>(c, k).
        first_nonblank_occurrence unquote_plain (query (get_reports ''tacId=XYZ&x=1&tacId=ABC'')) k
        = first_nonblank_occurrence unquote_plain (query (get_reports ''tacId=&tacId=XYZ'')) k)
        filter_keys"
    by (simp add: get_reports_def filter_keys_def first_nonblank_occurrence_def qs_segments_def
        partition_eq_def plus_to_space_def unquote_plain_def)
  from do_GET_query_noninterference [OF a b c, of None "reports_db [row_abc]"] a b c
  show ?thesis by blast
qed

theorem do_GET_first_occurrence_counterexample:
  "list_all (\<lambda>(c, k).
        first_occurrence unquote_plain (query (get_reports ''tacId='')) k
        = first_occurrence unquote_plain (query (get_reports ''tacId=&tacId=XYZ'')) k)
        filter_keys
   \<and> do_GET unquote_plain None (get_reports ''tacId='') (reports_db [row_abc])
       = Inr (json_response 200 (JArr [row_dict schema_columns row_abc]))
   \<and> do_GET unquote_plain None (get_reports ''tacId=&tacId=XYZ'') (reports_db [row_abc])
       = Inr (json_response 200 (JArr []))"
proof -
  have a: "list_all (\<lambda>(c, k).
        first_occurrence unquote_plain (query (get_reports ''tacId='')) k
        = first_occurrence unquote_plain (query (get_reports ''tacId=&tacId=XYZ'')) k)
        filter_keys"
    by (simp add: get_reports_def filter_keys_def first_occurrence_def qs_segments_def
        partition_eq_def plus_to_space_def unquote_plain_def)
  have f1: "build_filters (parse_qs unquote_plain ''tacId='')
              [''tacId'', ''plantInspectionReportNumber'', ''testReportNumber'', ''packModel'']
            = Inr [''packModel'' \<mapsto> [], ''testReportNumber'' \<mapsto> [],
                   ''plantInspectionReportNumber'' \<mapsto> [], ''tacId'' \<mapsto> []]"
    by (simp add: parse_qs_def parse_qsl_def partition_eq_def plus_to_space_def
        unquote_plain_def qs_first_def)
  have f2: "build_filters (parse_qs unquote_plain ''tacId=&tacId=XYZ'')
              [''tacId'', ''plantInspectionReportNumber'', ''testReportNumber'', ''packModel'']
            = Inr [''packModel'' \<mapsto> [], ''testReportNumber'' \<mapsto> [],
                   ''plantInspectionReportNumber'' \<mapsto> [], ''tacId'' \<mapsto> [88, 89, 90]]"
    by (simp add: parse_qs_def parse_qsl_def partition_eq_def plus_to_space_def
        unquote_plain_def qs_first_def ustr_def)
  have q1: "query_reports [''packModel'' \<mapsto> [], ''testReportNumber'' \<mapsto> [],
                   ''plantInspectionReportNumber'' \<mapsto> [], ''tacId'' \<mapsto> []]
              (reports_db [row_abc])
            = Inr [row_abc]"
    by (simp add: query_reports_db like_conds_def filter_keys_def filter_value_def strip_def)
  have q2: "query_reports [''packModel'' \<mapsto> [], ''testReportNumber'' \<mapsto> [],
                   ''plantInspectionReportNumber'' \<mapsto> [], ''tacId'' \<mapsto> [88, 89, 90]]
              (reports_db [row_abc])
            = Inr []"
    by (simp add: query_reports_db like_conds_def filter_keys_def filter_value_def strip_def
        is_space_def is_surrogate_def sql_like_def c_str_def row_abc_def null_row_def
        lower_ascii_def)
  have t: "table_columns (reports_db [row_abc]) = schema_columns"
    by (simp add: table_columns_def reports_db_def)
  have d1: "do_GET unquote_plain None (get_reports ''tacId='') (reports_db [row_abc])
       = Inr (json_response 200 (JArr [row_dict schema_columns row_abc]))"
    by (simp add: do_GET_def get_reports_def f1 q1 t del: build_filters.simps)
  have d2: "do_GET unquote_plain None (get_reports ''tacId=&tacId=XYZ'') (reports_db [row_abc])
       = Inr (json_response 200 (JArr []))"
    by (simp add: do_GET_def get_reports_def f2 q2 t del: build_filters.simps)
  from a d1 d2 show ?thesis by (intro conjI)
qed

end
